theory Spec2Isabelle
  imports Main "HOL-Library.Word"
begin

section \<open>CryptoDrive: the file controller\<close>

text \<open>
  A shallow embedding of the Express controller for file operations
  (\<^verbatim>\<open>checkType\<close>, \<^verbatim>\<open>checkPassphrase\<close>, \<^verbatim>\<open>uploadFiles\<close>, \<^verbatim>\<open>getAll\<close>,
  \<^verbatim>\<open>download\<close>, \<^verbatim>\<open>delete\<close>).  Each handler is a function from the request and the
  database state to the new database state and the list of calls the handler makes on
  \<^verbatim>\<open>next\<close>, \<^verbatim>\<open>res\<close> and \<^verbatim>\<open>console\<close>, in the order it makes them.
\<close>

subsection \<open>Values, errors and handler events\<close>

type_synonym byte = "8 word"
type_synonym buffer = "byte list"

text \<open>
  \<^verbatim>\<open>new AppError(message, statusCode)\<close>: the class of \<^verbatim>\<open>utils/appError\<close> is not among
  the sources and is taken as the pair of the arguments of its constructor; the status
  code is \<open>None\<close> where the source passes no second argument.  \<open>TypeError\<close> is what
  JavaScript throws when a property of \<^verbatim>\<open>null\<close> or \<^verbatim>\<open>undefined\<close> is read.
  \<open>AuthenticationError\<close> is what the spec has \<^verbatim>\<open>decryptStream\<close> fail with.
\<close>

datatype error =
    AppError string "nat option"
  | TypeError
  | AuthenticationError

text \<open>
  A document of the collection \<^verbatim>\<open>uploads.files\<close> of the GridFS bucket: the fields the
  driver writes and the \<^verbatim>\<open>metadata\<close> that \<^verbatim>\<open>uploadFiles\<close> attaches; \<open>id_m\<close> is
  \<^verbatim>\<open>metadata.id\<close>, the owner, and \<open>file_id\<close> is \<^verbatim>\<open>_id\<close>.  The driver's
  \<^verbatim>\<open>uploadDate\<close> is left out: no handler reads it.
\<close>

record info =
  fileName :: string
  createDate :: string
  lastModified :: string
  fileSize :: string
  type_i :: string

record metadata =
  id_m :: string
  md5_m :: string
  info_m :: info

record gridfile =
  file_id :: nat
  filename :: string
  contentType :: string
  chunkSize :: nat
  length_f :: nat
  metadata :: metadata

text \<open>
  The body of a JSON response: \<^verbatim>\<open>{status}\<close> or \<^verbatim>\<open>{status, files}\<close>.
\<close>

datatype json = Json_status string | Json_files string "gridfile list"

text \<open>
  What a handler does, call by call:
  \<^item> \<open>Next None\<close> is \<^verbatim>\<open>next()\<close>, \<open>Next (Some e)\<close> is \<^verbatim>\<open>next(e)\<close>;
  \<^item> \<open>Set_headers\<close> is \<^verbatim>\<open>res.set({...})\<close>;
  \<^item> \<open>Status_json c j\<close> is \<^verbatim>\<open>res.status(c).json(j)\<close>;
  \<^item> \<open>Pipe b\<close> is \<^verbatim>\<open>resStream.end(b); resStream.pipe(res)\<close>: the bytes \<open>b\<close> are sent;
  \<^item> \<open>Log\<close> is \<^verbatim>\<open>console.log\<close>;
  \<^item> \<open>Throw e\<close>: the handler's async function rejects with \<open>e\<close> (the promise that
    \<^verbatim>\<open>catchAsync\<close> receives);
  \<^item> \<open>Unhandled e\<close>: an async event listener rejects with \<open>e\<close>; no code of the
    controller receives that promise.
\<close>

datatype event =
    Next "error option"
  | Set_headers "(string \<times> string) list"
  | Status_json nat json
  | Pipe buffer
  | Log string
  | Throw error
  | Unhandled error

subsection \<open>Requests\<close>

datatype http_method = POST | GET | OTHER

text \<open>One entry of \<^verbatim>\<open>req.files.file\<close> as express-fileupload builds it.\<close>

record uploaded_file =
  name :: string
  data :: buffer
  size_f :: nat
  mimetype :: string
  md5 :: string

text \<open>
  \<^verbatim>\<open>req.files.file\<close>: undefined when the form has no field \<^verbatim>\<open>file\<close>, one object for one
  file, an array for several.
\<close>

datatype file_field = NoField | One uploaded_file | Many "uploaded_file list"

text \<open>
  The parts of the request the controller reads.  A field that may be
  \<^verbatim>\<open>undefined\<close> is an option; \<open>files = None\<close> is \<^verbatim>\<open>req.files == null\<close>;
  \<open>jwt_id\<close> is \<^verbatim>\<open>jwtDecoder(req.cookies.jwt).id\<close>.
\<close>

record request =
  req_method :: http_method
  body_key :: "string option"
  body_passphrase :: "string option"
  headers_key :: "string option"
  headers_passphrase :: "string option"
  files :: "file_field option"
  params_name :: string
  jwt_id :: string

subsection \<open>checkType\<close>

text \<open>What \<^verbatim>\<open>fromBuffer\<close> of the package file-type resolves to when a signature matches.\<close>

record file_type =
  ext :: string
  mime :: string

text \<open>
  \<^verbatim>\<open>let fileList = req.files.file; if (!Array.isArray(req.files.file)) { fileList = [];
  fileList.push(req.files.file); }\<close>.  An entry is \<open>None\<close> when it is \<^verbatim>\<open>undefined\<close>.
\<close>

fun fileList_of :: "file_field \<Rightarrow> uploaded_file option list" where
  "fileList_of NoField = [None]"
| "fileList_of (One f) = [Some f]"
| "fileList_of (Many fs) = map Some fs"

text \<open>
  The loop of \<^verbatim>\<open>checkType\<close> over \<^verbatim>\<open>fileList\<close>.  \<open>fromBuffer\<close> is file-type's
  detector (\<open>None\<close> when no signature matches), \<open>whiteList\<close> is
  \<^verbatim>\<open>process.env.WHITELIST_TYPE.split(", ")\<close>, and \<open>rf\<close> is \<^verbatim>\<open>req.files\<close>, which the loop
  body tests after it has read \<^verbatim>\<open>file.data\<close>.  Reading \<^verbatim>\<open>file.data\<close> of an undefined
  entry and \<^verbatim>\<open>.mime\<close> of an undefined detection result throw.
\<close>

fun checkType_loop ::
  "(buffer \<Rightarrow> file_type option) \<Rightarrow> string list \<Rightarrow> file_field option \<Rightarrow>
   uploaded_file option list \<Rightarrow> event list" where
  "checkType_loop fromBuffer whiteList rf [] = [Next None]"
| "checkType_loop fromBuffer whiteList rf (None # rest) = [Throw TypeError]"
| "checkType_loop fromBuffer whiteList rf (Some file # rest) =
     (let fileTypeFromBuffer = fromBuffer (data file) in
      if rf = None then [Next (Some (AppError ''Please provide a file!'' (Some 400)))]
      else case fileTypeFromBuffer of
          None \<Rightarrow> [Throw TypeError]
        | Some t \<Rightarrow>
            if mime t \<notin> set whiteList
            then [Next (Some (AppError ''File type not allowed'' (Some 415)))]
            else checkType_loop fromBuffer whiteList rf rest)"

text \<open>\<^verbatim>\<open>exports.checkType\<close>: reading \<^verbatim>\<open>req.files.file\<close> throws when \<^verbatim>\<open>req.files\<close> is null.\<close>

definition checkType ::
  "(buffer \<Rightarrow> file_type option) \<Rightarrow> string list \<Rightarrow> request \<Rightarrow> event list" where
  "checkType fromBuffer whiteList req =
     (case files req of
        None \<Rightarrow> [Throw TypeError]
      | Some field \<Rightarrow> checkType_loop fromBuffer whiteList (files req) (fileList_of field))"

subsection \<open>checkPassphrase\<close>

text \<open>
  A document of the \<^verbatim>\<open>Key\<close> collection.  The collection is a map from \<^verbatim>\<open>_id\<close> to
  document.  A field is \<open>None\<close> where the document does not have it, as in the document
  that an upsert creates.
\<close>

record key_doc =
  name_k :: "string option"
  user_k :: "string option"
  passphrase_k :: "string option"
  times :: nat

type_synonym key_collection = "string \<rightharpoonup> key_doc"

text \<open>
  \<^verbatim>\<open>Key.findOneAndUpdate({ _id: keyID }, { $inc: { times: 1 } }, { upsert: true })\<close>
\<close>

definition findOneAndUpdate_inc :: "key_collection \<Rightarrow> string \<Rightarrow> key_collection" where
  "findOneAndUpdate_inc keys keyID =
     (case keys keyID of
        None \<Rightarrow> keys(keyID \<mapsto> \<lparr>name_k = None, user_k = None, passphrase_k = None, times = 1\<rparr>)
      | Some key \<Rightarrow> keys(keyID \<mapsto> key\<lparr>times := times key + 1\<rparr>))"

text \<open>\<^verbatim>\<open>!x\<close> for a string that may be undefined.\<close>

fun falsy :: "string option \<Rightarrow> bool" where
  "falsy None = True"
| "falsy (Some s) = (s = [])"

text \<open>
  \<^verbatim>\<open>exports.checkPassphrase\<close>.  \<open>credentials\<close> is the choice of \<^verbatim>\<open>keyID\<close> and
  \<^verbatim>\<open>passphrase\<close> by the request method: both stay undefined for a method other than
  POST and GET.  \<open>correctPassphrase\<close> is the method of the key model that
  compares a candidate passphrase with the stored hash.  Both \<^verbatim>\<open>AppError\<close>s are built
  with a message only: the status code is the second argument of \<^verbatim>\<open>next\<close>.
  \<^verbatim>\<open>Key.findOne\<close> resolves to \<^verbatim>\<open>null\<close> when no document matches, and
  \<^verbatim>\<open>key.correctPassphrase\<close> then throws.  Key identifiers are taken to be well-formed
  \<^verbatim>\<open>ObjectId\<close> strings, which the query accepts.
\<close>

definition credentials :: "request \<Rightarrow> string option \<times> string option" where
  "credentials req =
     (case req_method req of
        POST \<Rightarrow> (body_key req, body_passphrase req)
      | GET \<Rightarrow> (headers_key req, headers_passphrase req)
      | OTHER \<Rightarrow> (None, None))"

definition checkPassphrase ::
  "(string \<Rightarrow> string option \<Rightarrow> bool) \<Rightarrow> key_collection \<Rightarrow> request \<Rightarrow>
   key_collection \<times> event list" where
  "checkPassphrase correctPassphrase keys req =
     (let (keyID, passphrase) = credentials req
      in if falsy keyID \<or> falsy passphrase
         then (keys, [Next (Some (AppError ''Please provide a key and passphrase'' None))])
         else case (keyID, passphrase) of
             (Some kid, Some pw) \<Rightarrow>
               (case keys kid of
                  None \<Rightarrow> (keys, [Throw TypeError])
                | Some key \<Rightarrow>
                    if \<not> correctPassphrase pw (passphrase_k key)
                    then (keys, [Next (Some (AppError ''Incorrect key passphrase'' None))])
                    else (findOneAndUpdate_inc keys kid, [Next None]))
           | _ \<Rightarrow> (keys, [Next (Some (AppError ''Please provide a key and passphrase'' None))]))"

subsection \<open>The GridFS bucket\<close>

text \<open>
  The bucket \<^verbatim>\<open>uploads\<close> of the MongoDB driver: the collection \<^verbatim>\<open>uploads.files\<close>, one
  document per stored file, and the collection \<^verbatim>\<open>uploads.chunks\<close>, one document per
  chunk, which names its file by \<^verbatim>\<open>files_id\<close> and its position by \<^verbatim>\<open>n\<close>.  Both are lists
  in insertion order.  \<open>next_id\<close> stands for the driver's generator of \<^verbatim>\<open>ObjectId\<close>s,
  which never hands out the same identifier twice.
\<close>

record chunk =
  files_id :: nat
  n_c :: nat
  data_c :: buffer

record bucket =
  files_b :: "gridfile list"
  chunks_b :: "chunk list"
  next_id :: nat

text \<open>A buffer cut into pieces of \<open>cs\<close> bytes, the last one shorter when it has to be.\<close>

function split_chunks :: "nat \<Rightarrow> buffer \<Rightarrow> buffer list" where
  "split_chunks cs buf =
     (if cs = 0 \<or> buf = [] then [] else take cs buf # split_chunks cs (drop cs buf))"
  by pat_completeness auto
termination
  by (relation "measure (\<lambda>(cs, buf). length buf)") auto

text \<open>
  \<^verbatim>\<open>bufferStream.pipe(gridfsBucket.openUploadStream(filename, {chunkSizeBytes, contentType,
  metadata}))\<close> once the stream has finished: the driver takes its default chunk size of
  255 KiB when the option is 0 (falsy), writes the chunks numbered from 0 and then the
  file document.
\<close>

definition openUploadStream_pipe ::
  "bucket \<Rightarrow> string \<Rightarrow> nat \<Rightarrow> string \<Rightarrow> metadata \<Rightarrow> buffer \<Rightarrow> bucket" where
  "openUploadStream_pipe b fname chunkSizeBytes ctype meta storageData =
     (let fid = next_id b;
          cs = (if chunkSizeBytes = 0 then 255 * 1024 else chunkSizeBytes);
          parts = split_chunks cs storageData
      in \<lparr>files_b = files_b b @
            [\<lparr>file_id = fid, filename = fname, contentType = ctype, chunkSize = cs,
              length_f = length storageData, metadata = meta\<rparr>],
          chunks_b = chunks_b b @
            map (\<lambda>(i, d). \<lparr>files_id = fid, n_c = i, data_c = d\<rparr>) (enumerate 0 parts),
          next_id = Suc fid\<rparr>)"

text \<open>
  \<^verbatim>\<open>gridfsBucket.find(query).toArray\<close>: the file documents that satisfy the query, in
  the order of the collection.
\<close>

definition find_b :: "bucket \<Rightarrow> (gridfile \<Rightarrow> bool) \<Rightarrow> gridfile list" where
  "find_b b query = filter query (files_b b)"

text \<open>
  The two queries of the controller: \<^verbatim>\<open>{ "metadata.id": id }\<close> and
  \<^verbatim>\<open>{ "metadata.id": id, filename: name }\<close>.
\<close>

definition by_owner :: "string \<Rightarrow> gridfile \<Rightarrow> bool" where
  "by_owner ident f = (id_m (metadata f) = ident)"

definition by_owner_and_name :: "string \<Rightarrow> string \<Rightarrow> gridfile \<Rightarrow> bool" where
  "by_owner_and_name ident fname f = (id_m (metadata f) = ident \<and> filename f = fname)"

text \<open>
  \<^verbatim>\<open>gridfsBucket.openDownloadStream(fileID)\<close>: the \<^verbatim>\<open>data\<close> events of the stream, the
  chunks of the file in the order of \<^verbatim>\<open>n\<close>.
\<close>

definition openDownloadStream :: "bucket \<Rightarrow> nat \<Rightarrow> buffer list" where
  "openDownloadStream b fileID =
     map data_c (sort_key n_c (filter (\<lambda>c. files_id c = fileID) (chunks_b b)))"

text \<open>\<^verbatim>\<open>gridfsBucket.delete(fileID)\<close>: the file document and every chunk of the file go.\<close>

definition delete_b :: "bucket \<Rightarrow> nat \<Rightarrow> bucket" where
  "delete_b b fileID =
     b\<lparr>files_b := filter (\<lambda>f. file_id f \<noteq> fileID) (files_b b),
       chunks_b := filter (\<lambda>c. files_id c \<noteq> fileID) (chunks_b b)\<rparr>"

subsection \<open>encryptStream and decryptStream\<close>

text \<open>
  The primitives under the two functions: the slow salted key-derivation function, the
  authenticated cipher (\<open>seal\<close> gives ciphertext and tag, \<open>unseal\<close> gives \<open>None\<close> when
  the tag does not verify) and the sizes of salt and nonce.
\<close>

record aead =
  kdf :: "string \<Rightarrow> buffer \<Rightarrow> buffer"
  seal :: "buffer \<Rightarrow> buffer \<Rightarrow> buffer \<Rightarrow> buffer"
  unseal :: "buffer \<Rightarrow> buffer \<Rightarrow> buffer \<Rightarrow> buffer option"
  salt_len :: nat
  nonce_len :: nat

text \<open>
  Modelled from the spec: \<^verbatim>\<open>encryptStream\<close> of \<^verbatim>\<open>utils/cryptoFeatures\<close>, which is not
  among the sources.  The spec: it "derives a symmetric key from passphrase via a slow,
  salted key-derivation function; generates a fresh random nonce per object; produces
  authenticated ciphertext plus the nonce/salt bound into the output so decryption is
  self-contained given the same passphrase".  The fresh salt and nonce are arguments.
\<close>

definition encryptStream :: "aead \<Rightarrow> buffer \<Rightarrow> string \<Rightarrow> buffer \<Rightarrow> buffer \<Rightarrow> buffer" where
  "encryptStream prim plaintext passphrase salt nonce =
     salt @ nonce @ seal prim (kdf prim passphrase salt) nonce plaintext"

text \<open>
  Modelled from the spec: \<^verbatim>\<open>decryptStream\<close> of \<^verbatim>\<open>utils/cryptoFeatures\<close>, which is not
  among the sources.  The spec: it "re-derives the key from the embedded salt and
  supplied passphrase; fails with AuthenticationError if the authentication tag does
  not verify".
\<close>

definition decryptStream :: "aead \<Rightarrow> buffer \<Rightarrow> string \<Rightarrow> error + buffer" where
  "decryptStream prim ciphertext passphrase =
     (let salt = take (salt_len prim) ciphertext;
          nonce = take (nonce_len prim) (drop (salt_len prim) ciphertext);
          sealed = drop (salt_len prim + nonce_len prim) ciphertext
      in case unseal prim (kdf prim passphrase salt) nonce sealed of
          None \<Rightarrow> Inl AuthenticationError
        | Some plaintext \<Rightarrow> Inr plaintext)"

subsection \<open>uploadFiles\<close>

text \<open>
  What the handler takes from its host: \<^verbatim>\<open>new Date().toDateString()\<close>, the formatting
  \<^verbatim>\<open>(Math.round(size * Math.pow(10, -6) * 100) / 100).toFixed(3)\<close> of a size, and the
  random salt and nonce that the \<open>i\<close>-th encryption of the request draws.
\<close>

record host =
  toDateString :: string
  toFixed_MB :: "nat \<Rightarrow> string"
  random :: "nat \<Rightarrow> buffer \<times> buffer"

text \<open>
  The loop of \<^verbatim>\<open>uploadFiles\<close> over \<^verbatim>\<open>fileList\<close>, then the response.  Destructuring an
  undefined entry throws; a passphrase that is undefined is taken to make the key
  derivation throw.  Files piped before a throw stay in the bucket.  The source does not
  await the pipes: the streams are opened, and so get their \<^verbatim>\<open>_id\<close>s, in the order of
  the request, and each file document is written when its stream finishes.  The loop
  below lets the streams finish in the order of the request, which is one of the orders
  the source allows.
\<close>

fun uploadFiles_loop ::
  "aead \<Rightarrow> host \<Rightarrow> string \<Rightarrow> string option \<Rightarrow> nat \<Rightarrow> bucket \<Rightarrow>
   uploaded_file option list \<Rightarrow> bucket \<times> event list" where
  "uploadFiles_loop prim h ident passphrase i b [] =
     (b, [Status_json 200 (Json_status ''success'')])"
| "uploadFiles_loop prim h ident passphrase i b (None # rest) = (b, [Throw TypeError])"
| "uploadFiles_loop prim h ident passphrase i b (Some file # rest) =
     (case passphrase of
        None \<Rightarrow> (b, [Throw TypeError])
      | Some pw \<Rightarrow>
          (let storageData =
                 encryptStream prim (data file) pw (fst (random h i)) (snd (random h i))
           in uploadFiles_loop prim h ident passphrase (Suc i)
                (openUploadStream_pipe b (name file) (size_f file) (mimetype file)
                   \<lparr>id_m = ident, md5_m = md5 file,
                     info_m = \<lparr>fileName = name file, createDate = toDateString h,
                       lastModified = toDateString h, fileSize = toFixed_MB h (size_f file),
                       type_i = mimetype file\<rparr>\<rparr>
                   storageData)
                rest))"

definition uploadFiles ::
  "aead \<Rightarrow> host \<Rightarrow> bucket \<Rightarrow> request \<Rightarrow> bucket \<times> event list" where
  "uploadFiles prim h b req =
     (case files req of
        None \<Rightarrow> (b, [Throw TypeError])
      | Some field \<Rightarrow>
          uploadFiles_loop prim h (jwt_id req) (body_passphrase req) 0 b (fileList_of field))"

subsection \<open>getAll\<close>

text \<open>The callback of \<^verbatim>\<open>toArray\<close>; \<open>None\<close> is an undefined \<^verbatim>\<open>files\<close>.\<close>

definition getAll_found :: "gridfile list option \<Rightarrow> event list" where
  "getAll_found found =
     (case found of
        None \<Rightarrow> [Status_json 404 (Json_status ''failed'')]
      | Some fs \<Rightarrow>
          if length fs = 0 then [Status_json 404 (Json_status ''failed'')]
          else [Status_json 200 (Json_files ''success'' fs)])"

definition getAll :: "bucket \<Rightarrow> request \<Rightarrow> event list" where
  "getAll b req = getAll_found (Some (find_b b (by_owner (jwt_id req))))"

subsection \<open>download\<close>

text \<open>
  The callback of \<^verbatim>\<open>toArray\<close> in \<^verbatim>\<open>download\<close>.  The branch for a foreign owner calls
  \<^verbatim>\<open>new next(...)\<close> and does not return.  The listener of \<^verbatim>\<open>end\<close> concatenates the
  chunks, decrypts the whole buffer and only then writes to the response; when
  \<^verbatim>\<open>decryptStream\<close> fails, the listener's promise rejects and nothing is written.  An
  undefined passphrase is taken to make the key derivation throw, as in the upload.
  The list records the calls of the callback; what Express does with calls on a
  response that an error handler has already answered is not part of it.
\<close>

definition download_found ::
  "aead \<Rightarrow> bucket \<Rightarrow> request \<Rightarrow> gridfile list option \<Rightarrow> event list" where
  "download_found prim b req found =
     (case found of
        None \<Rightarrow> [Next (Some (AppError ''Not found!'' (Some 404)))]
      | Some [] \<Rightarrow> [Next (Some (AppError ''Not found!'' (Some 404)))]
      | Some (f # _) \<Rightarrow>
          (if id_m (metadata f) \<noteq> jwt_id req
           then [Next (Some (AppError ''Permission denied!'' (Some 403)))] else [])
          @ [Set_headers
               [(''Accept-Ranges'', ''bytes''),
                (''Content-Disposition'', ''attachment; filename='' @ params_name req),
                (''Content-Type'', contentType f)]]
          @ (let bufferArray = openDownloadStream b (file_id f);
                 buffer = concat bufferArray
             in case headers_passphrase req of
                 None \<Rightarrow> [Unhandled TypeError]
               | Some pw \<Rightarrow>
                   (case decryptStream prim buffer pw of
                      Inl e \<Rightarrow> [Unhandled e]
                    | Inr decrypt \<Rightarrow> [Pipe decrypt])))"

definition download :: "aead \<Rightarrow> bucket \<Rightarrow> request \<Rightarrow> event list" where
  "download prim b req =
     download_found prim b req
       (Some (find_b b (by_owner_and_name (jwt_id req) (params_name req))))"

subsection \<open>delete\<close>

text \<open>
  The callback of \<^verbatim>\<open>toArray\<close> in \<^verbatim>\<open>delete\<close>.  Here the branch for a foreign owner
  logs both identifiers and returns.
\<close>

definition delete_found ::
  "bucket \<Rightarrow> request \<Rightarrow> gridfile list option \<Rightarrow> bucket \<times> event list" where
  "delete_found b req found =
     (case found of
        None \<Rightarrow> (b, [Next (Some (AppError ''Not found!'' (Some 404)))])
      | Some [] \<Rightarrow> (b, [Next (Some (AppError ''Not found!'' (Some 404)))])
      | Some (f # _) \<Rightarrow>
          if id_m (metadata f) \<noteq> jwt_id req
          then (b, [Log (id_m (metadata f)), Log (jwt_id req),
                    Next (Some (AppError ''Permission denied!'' (Some 403)))])
          else (delete_b b (file_id f), [Status_json 200 (Json_status ''success'')]))"

definition delete :: "bucket \<Rightarrow> request \<Rightarrow> bucket \<times> event list" where
  "delete b req =
     delete_found b req
       (Some (find_b b (by_owner_and_name (jwt_id req) (params_name req))))"

subsection \<open>The upload route\<close>

text \<open>
  Modelled from the spec: the route of an upload, which is not among the sources.  The
  spec has the type check run before encryption and persistence ("TypeSniffer validates
  the byte content against the allow-list; CryptoEngine then produces an encrypted
  stream; ChunkStore persists that stream"), and Express runs the handler behind a
  middleware only when the middleware ends in \<^verbatim>\<open>next()\<close>.
\<close>

definition upload_route ::
  "(buffer \<Rightarrow> file_type option) \<Rightarrow> string list \<Rightarrow> aead \<Rightarrow> host \<Rightarrow> bucket \<Rightarrow> request \<Rightarrow>
   bucket \<times> event list" where
  "upload_route fromBuffer whiteList prim h b req =
     (let checked = checkType fromBuffer whiteList req
      in if checked = [Next None]
         then (case uploadFiles prim h b req of (b', evs) \<Rightarrow> (b', checked @ evs))
         else (b, checked))"

subsection \<open>Notions for the statements\<close>

text \<open>The cipher opens what it sealed, under the same key and nonce.\<close>

definition opens_own :: "aead \<Rightarrow> bool" where
  "opens_own prim = (\<forall>key nonce plaintext.
     unseal prim key nonce (seal prim key nonce plaintext) = Some plaintext)"

text \<open>
  The tag of a text sealed under the key of one passphrase does not verify under the
  key of any other passphrase.
\<close>

definition rejects_other_passphrase :: "aead \<Rightarrow> bool" where
  "rejects_other_passphrase prim = (\<forall>K1 K2 salt nonce plaintext. K1 \<noteq> K2 \<longrightarrow>
     unseal prim (kdf prim K2 salt) nonce (seal prim (kdf prim K1 salt) nonce plaintext) = None)"

text \<open>
  The bucket's identifiers are in order: every identifier in use is below the next one
  the generator hands out.
\<close>

definition bucket_ok :: "bucket \<Rightarrow> bool" where
  "bucket_ok b = ((\<forall>f \<in> set (files_b b). file_id f < next_id b) \<and>
                  (\<forall>c \<in> set (chunks_b b). files_id c < next_id b))"

text \<open>The files that the responses of a handler list.\<close>

fun listing :: "event list \<Rightarrow> gridfile list" where
  "listing [] = []"
| "listing (Status_json c (Json_files s fs) # es) = fs @ listing es"
| "listing (e # es) = listing es"

text \<open>The bytes that a handler sends as file content.\<close>

fun sent :: "event list \<Rightarrow> buffer" where
  "sent [] = []"
| "sent (Pipe bytes # es) = bytes @ sent es"
| "sent (e # es) = sent es"

subsection \<open>Concrete data for the examples\<close>

definition blank :: request where
  "blank = \<lparr>req_method = OTHER, body_key = None, body_passphrase = None, headers_key = None,
     headers_passphrase = None, files = None, params_name = [], jwt_id = []\<rparr>"

text \<open>A detector with three of the signatures of file-type: PDF, PNG and DOS executable.\<close>

definition sample_fromBuffer :: "buffer \<Rightarrow> file_type option" where
  "sample_fromBuffer buf =
     (if take 4 buf = [0x25, 0x50, 0x44, 0x46]
        then Some \<lparr>ext = ''pdf'', mime = ''application/pdf''\<rparr>
      else if take 8 buf = [0x89, 0x50, 0x4E, 0x47, 0x0D, 0x0A, 0x1A, 0x0A]
        then Some \<lparr>ext = ''png'', mime = ''image/png''\<rparr>
      else if take 2 buf = [0x4D, 0x5A]
        then Some \<lparr>ext = ''exe'', mime = ''application/x-msdownload''\<rparr>
      else None)"

definition sample_whiteList :: "string list" where
  "sample_whiteList = [''application/pdf'', ''image/png'']"

definition notes_txt :: uploaded_file where
  "notes_txt = \<lparr>name = ''notes.txt'', data = [0x68, 0x69], size_f = 2,
     mimetype = ''text/plain'', md5 = ''m1''\<rparr>"

definition setup_exe :: uploaded_file where
  "setup_exe = \<lparr>name = ''setup.exe'', data = [0x4D, 0x5A, 0x90], size_f = 3,
     mimetype = ''application/pdf'', md5 = ''m2''\<rparr>"

definition report_pdf :: uploaded_file where
  "report_pdf = \<lparr>name = ''report.pdf'', data = [0x25, 0x50, 0x44, 0x46, 0x2D], size_f = 5,
     mimetype = ''application/pdf'', md5 = ''m3''\<rparr>"

text \<open>A comparison of a candidate passphrase with a stored hash, and a key collection.\<close>

definition sample_correctPassphrase :: "string \<Rightarrow> string option \<Rightarrow> bool" where
  "sample_correctPassphrase candidate stored = (stored = Some (''hash:'' @ candidate))"

definition sample_keys :: key_collection where
  "sample_keys = [''507f1f77bcf86cd799439011'' \<mapsto> \<lparr>name_k = Some ''K1'', user_k = Some ''alice'',
      passphrase_k = Some ''hash:correct-horse'', times = 4\<rparr>]"

text \<open>
  A cipher for the examples.  It hides nothing: the sealed text is the plaintext behind
  a mark that spells out the key, and it opens only under the key of its mark.  The
  key is the salt followed by the bytes of the passphrase.
\<close>

fun key_mark :: "buffer \<Rightarrow> buffer" where
  "key_mark [] = [0]"
| "key_mark (x # xs) = 1 # x # key_mark xs"

definition sample_aead :: aead where
  "sample_aead =
     \<lparr>kdf = (\<lambda>passphrase salt. salt @ map (\<lambda>c. of_nat (of_char c)) passphrase),
      seal = (\<lambda>key nonce plaintext. key_mark key @ plaintext),
      unseal = (\<lambda>key nonce sealed.
         if take (length (key_mark key)) sealed = key_mark key
         then Some (drop (length (key_mark key)) sealed) else None),
      salt_len = 2, nonce_len = 3\<rparr>"

definition sample_host :: host where
  "sample_host = \<lparr>toDateString = ''Tue Nov 03 2026'', toFixed_MB = (\<lambda>n. ''0.000''),
     random = (\<lambda>i. ([of_nat i, 7], [of_nat i, 8, 9]))\<rparr>"

definition empty_bucket :: bucket where
  "empty_bucket = \<lparr>files_b = [], chunks_b = [], next_id = 0\<rparr>"

text \<open>Alice's upload of \<^verbatim>\<open>report.pdf\<close> and her and Bob's requests for it.\<close>

definition alice_upload :: request where
  "alice_upload = blank\<lparr>req_method := POST, body_key := Some ''507f1f77bcf86cd799439011'',
     body_passphrase := Some ''correct-horse'', files := Some (One report_pdf),
     jwt_id := ''alice''\<rparr>"

definition alice_request :: request where
  "alice_request = blank\<lparr>req_method := GET, headers_key := Some ''507f1f77bcf86cd799439011'',
     headers_passphrase := Some ''correct-horse'', params_name := ''report.pdf'',
     jwt_id := ''alice''\<rparr>"

definition bob_request :: request where
  "bob_request = blank\<lparr>req_method := GET, headers_key := Some ''507f1f77bcf86cd799439012'',
     headers_passphrase := Some ''tr0ub4dor'', params_name := ''report.pdf'',
     jwt_id := ''bob''\<rparr>"

definition bob_upload :: request where
  "bob_upload = blank\<lparr>req_method := POST, body_key := Some ''507f1f77bcf86cd799439012'',
     body_passphrase := Some ''tr0ub4dor'', files := Some (One setup_exe),
     jwt_id := ''bob''\<rparr>"

text \<open>The bucket after Alice has uploaded \<^verbatim>\<open>report.pdf\<close> once, and twice.\<close>

definition bucket1 :: bucket where
  "bucket1 = fst (uploadFiles sample_aead sample_host empty_bucket alice_upload)"

definition bucket2 :: bucket where
  "bucket2 = fst (uploadFiles sample_aead sample_host bucket1 alice_upload)"

text \<open>The bucket after Alice's first upload and an upload of Bob.\<close>

definition bucket3 :: bucket where
  "bucket3 = fst (uploadFiles sample_aead sample_host bucket1 bob_upload)"

text \<open>
  A second \<^verbatim>\<open>report.pdf\<close> with other bytes, Alice's upload of it, and the bucket after she
  has uploaded the first and then the second.
\<close>

definition report_pdf_v2 :: uploaded_file where
  "report_pdf_v2 = \<lparr>name = ''report.pdf'', data = [0x25, 0x50, 0x44, 0x46, 0x2D, 0x32],
     size_f = 6, mimetype = ''application/pdf'', md5 = ''m4''\<rparr>"

definition alice_upload_v2 :: request where
  "alice_upload_v2 = alice_upload\<lparr>files := Some (One report_pdf_v2)\<rparr>"

definition bucket5 :: bucket where
  "bucket5 = fst (uploadFiles sample_aead sample_host bucket1 alice_upload_v2)"

text \<open>
  Alice's upload of two files in one request, the bucket after it, and the same bucket
  with the two file documents in the other order.
\<close>

definition alice_batch :: request where
  "alice_batch = alice_upload\<lparr>files := Some (Many [report_pdf, setup_exe])\<rparr>"

definition bucket4 :: bucket where
  "bucket4 = fst (uploadFiles sample_aead sample_host empty_bucket alice_batch)"

definition bucket4_rev :: bucket where
  "bucket4_rev = bucket4\<lparr>files_b := rev (files_b bucket4)\<rparr>"

section \<open>Properties\<close>

subsection \<open>checkType\<close>

lemma checkType_loop_never_400:
  "rf \<noteq> None \<Longrightarrow>
   Next (Some (AppError ''Please provide a file!'' (Some 400)))
     \<notin> set (checkType_loop fromBuffer whiteList rf fl)"
  by (induction fromBuffer whiteList rf fl rule: checkType_loop.induct)
     (auto simp: Let_def split: option.splits)

text \<open>
  Claim C10.  In \<^verbatim>\<open>checkType\<close> the branch that answers 400 "Please provide a file!" is
  unreachable: no request makes the middleware call \<^verbatim>\<open>next\<close> with that error, and a
  request that carries no files (\<^verbatim>\<open>req.files\<close> is null, or it has no field
  \<^verbatim>\<open>file\<close>) makes it throw a \<^verbatim>\<open>TypeError\<close> instead.
\<close>

theorem checkType_missing_file_branch_unreachable:
  "Next (Some (AppError ''Please provide a file!'' (Some 400)))
     \<notin> set (checkType fromBuffer whiteList req)
   \<and> (files req = None \<or> files req = Some NoField \<longrightarrow>
        checkType fromBuffer whiteList req = [Throw TypeError])"
  by (auto simp: checkType_def checkType_loop_never_400 split: option.splits)

theorem checkType_missing_file_branch_unreachable_witness:
  "files blank = None
   \<and> checkType sample_fromBuffer sample_whiteList blank = [Throw TypeError]
   \<and> Next (Some (AppError ''Please provide a file!'' (Some 400)))
       \<notin> set (checkType sample_fromBuffer sample_whiteList blank)"
  using checkType_missing_file_branch_unreachable [of sample_fromBuffer sample_whiteList blank]
  by (simp add: blank_def)

lemma checkType_loop_rejects:
  "\<exists>f \<in> set fs. (case fromBuffer (data f) of
                      None \<Rightarrow> True | Some t \<Rightarrow> mime t \<notin> set whiteList) \<Longrightarrow>
   Next None \<notin> set (checkType_loop fromBuffer whiteList rf (map Some fs))"
  by (induction fs) (auto simp: Let_def split: option.splits)

text \<open>
  What does hold of the gate: a batch in which the type of some file is undetected or
  outside the allow-list never reaches \<^verbatim>\<open>next()\<close>, so the upload behind
  \<^verbatim>\<open>checkType\<close> does not run for it and the bucket stays as it was.
\<close>

lemma checkType_batch_rejected:
  "files req = Some field \<Longrightarrow> fileList_of field = map Some fs \<Longrightarrow>
   \<exists>f \<in> set fs. (case fromBuffer (data f) of
                      None \<Rightarrow> True | Some t \<Rightarrow> mime t \<notin> set whiteList) \<Longrightarrow>
   Next None \<notin> set (checkType fromBuffer whiteList req)"
  by (simp add: checkType_def checkType_loop_rejects)

lemma upload_route_rejected_batch_stores_nothing:
  assumes "files req = Some field" and "fileList_of field = map Some fs"
    and "\<exists>f \<in> set fs. (case fromBuffer (data f) of
                      None \<Rightarrow> True | Some t \<Rightarrow> mime t \<notin> set whiteList)"
  shows "fst (upload_route fromBuffer whiteList prim h b req) = b"
proof -
  from assms have "Next None \<notin> set (checkType fromBuffer whiteList req)"
    by (rule checkType_batch_rejected)
  then have "checkType fromBuffer whiteList req \<noteq> [Next None]" by auto
  then show ?thesis by (simp add: upload_route_def)
qed

text \<open>
  Claim C4.  A batch in which a file's sniffed type is outside the allow-list is
  rejected with 415 "File type not allowed".  The code does not do so for the batch of
  \<^verbatim>\<open>notes.txt\<close>, whose bytes match no signature, and \<^verbatim>\<open>setup.exe\<close>, an executable,
  against the allow-list of PDF and PNG: the detection result of the first file is
  undefined, reading its \<^verbatim>\<open>mime\<close> throws a \<^verbatim>\<open>TypeError\<close>, and \<^verbatim>\<open>next\<close> is never
  called with the 415 error.
\<close>

theorem checkType_undetected_type_throws:
  "checkType sample_fromBuffer sample_whiteList
     (blank\<lparr>req_method := POST, files := Some (Many [notes_txt, setup_exe])\<rparr>)
   = [Throw TypeError]"
  by (simp add: checkType_def sample_fromBuffer_def notes_txt_def setup_exe_def blank_def)

subsection \<open>checkPassphrase\<close>

lemma checkPassphrase_missing:
  "falsy (fst (credentials req)) \<or> falsy (snd (credentials req)) \<Longrightarrow>
   checkPassphrase cp keys req
   = (keys, [Next (Some (AppError ''Please provide a key and passphrase'' None))])"
  by (auto simp: checkPassphrase_def split: prod.splits)

lemma checkPassphrase_unknown_key:
  "credentials req = (Some kid, Some pw) \<Longrightarrow> kid \<noteq> [] \<Longrightarrow> pw \<noteq> [] \<Longrightarrow>
   keys kid = None \<Longrightarrow> checkPassphrase cp keys req = (keys, [Throw TypeError])"
  by (simp add: checkPassphrase_def)

text \<open>
  Claim C6.  For every key record and every verification attempt against it (a request
  whose credentials name the key), the usage counter \<^verbatim>\<open>times\<close> of the key goes up by
  exactly 1 when the verification succeeds, nothing else in the collection changes, and
  the middleware calls \<^verbatim>\<open>next()\<close>; when the verification fails the collection is left
  as it was.  More generally, whenever the middleware does not end in \<^verbatim>\<open>next()\<close>, the
  collection is unchanged.
\<close>

theorem checkPassphrase_usage_counter:
  "(keys kid = Some key \<and> credentials req = (Some kid, Some pw) \<longrightarrow>
      checkPassphrase cp keys req =
        (if kid \<noteq> [] \<and> pw \<noteq> [] \<and> cp pw (passphrase_k key)
         then (keys(kid \<mapsto> key\<lparr>times := times key + 1\<rparr>), [Next None])
         else (keys, [Next (Some (AppError
                 (if kid = [] \<or> pw = [] then ''Please provide a key and passphrase''
                  else ''Incorrect key passphrase'') None))])))
   \<and> (snd (checkPassphrase cp keys req) \<noteq> [Next None] \<longrightarrow>
        fst (checkPassphrase cp keys req) = keys)"
  by (auto simp: checkPassphrase_def findOneAndUpdate_inc_def split: prod.splits option.splits)

theorem checkPassphrase_usage_counter_witness:
  "sample_keys ''507f1f77bcf86cd799439011'' = Some \<lparr>name_k = Some ''K1'', user_k = Some ''alice'',
      passphrase_k = Some ''hash:correct-horse'', times = 4\<rparr>
   \<and> credentials (blank\<lparr>req_method := POST, body_key := Some ''507f1f77bcf86cd799439011'',
         body_passphrase := Some ''correct-horse''\<rparr>)
       = (Some ''507f1f77bcf86cd799439011'', Some ''correct-horse'')
   \<and> map_option times (fst (checkPassphrase sample_correctPassphrase sample_keys
        (blank\<lparr>req_method := POST, body_key := Some ''507f1f77bcf86cd799439011'',
           body_passphrase := Some ''correct-horse''\<rparr>)) ''507f1f77bcf86cd799439011'') = Some 5
   \<and> snd (checkPassphrase sample_correctPassphrase sample_keys
        (blank\<lparr>req_method := POST, body_key := Some ''507f1f77bcf86cd799439011'', body_passphrase := Some ''wrong''\<rparr>))
       \<noteq> [Next None]
   \<and> fst (checkPassphrase sample_correctPassphrase sample_keys
        (blank\<lparr>req_method := POST, body_key := Some ''507f1f77bcf86cd799439011'', body_passphrase := Some ''wrong''\<rparr>))
       = sample_keys"
  using checkPassphrase_usage_counter [of sample_keys "''507f1f77bcf86cd799439011''" "the (sample_keys ''507f1f77bcf86cd799439011'')"
      "blank\<lparr>req_method := POST, body_key := Some ''507f1f77bcf86cd799439011'', body_passphrase := Some ''correct-horse''\<rparr>"
      "''correct-horse''" sample_correctPassphrase]
    checkPassphrase_usage_counter [of sample_keys "''507f1f77bcf86cd799439011''" "the (sample_keys ''507f1f77bcf86cd799439011'')"
      "blank\<lparr>req_method := POST, body_key := Some ''507f1f77bcf86cd799439011'', body_passphrase := Some ''wrong''\<rparr>"
      "''wrong''" sample_correctPassphrase]
  by (simp add: sample_keys_def credentials_def blank_def sample_correctPassphrase_def)

text \<open>
  Claim C8.  A verification request whose key identifier matches no stored key record
  fails with a not-found error.  The code does not do so: for the identifier
  \<^verbatim>\<open>507f1f77bcf86cd799439019\<close>,
  which the collection does not hold, \<^verbatim>\<open>Key.findOne\<close> gives null, the call of
  \<^verbatim>\<open>key.correctPassphrase\<close> throws a \<^verbatim>\<open>TypeError\<close>, and \<^verbatim>\<open>next\<close> is never called with
  an \<^verbatim>\<open>AppError\<close>.
\<close>

theorem checkPassphrase_unknown_key_throws:
  "checkPassphrase sample_correctPassphrase sample_keys
     (blank\<lparr>req_method := POST, body_key := Some ''507f1f77bcf86cd799439019'', body_passphrase := Some ''correct-horse''\<rparr>)
   = (sample_keys, [Throw TypeError])"
  by (simp add: checkPassphrase_def credentials_def blank_def sample_keys_def)

subsection \<open>The chunk store\<close>

declare split_chunks.simps [simp del]

lemma concat_split_chunks: "0 < cs \<Longrightarrow> concat (split_chunks cs buf) = buf"
proof (induction cs buf rule: split_chunks.induct)
  case (1 cs buf)
  show ?case
  proof (cases "buf = []")
    case True
    then show ?thesis by (simp add: split_chunks.simps)
  next
    case False
    with 1 have "concat (split_chunks cs (drop cs buf)) = drop cs buf" by simp
    with False 1(2) show ?thesis
      by (subst split_chunks.simps) simp
  qed
qed

lemma sort_key_enumerate:
  "sort_key n_c (map (\<lambda>(i, d). \<lparr>files_id = fid, n_c = i, data_c = d\<rparr>) (enumerate k parts))
   = map (\<lambda>(i, d). \<lparr>files_id = fid, n_c = i, data_c = d\<rparr>) (enumerate k parts)"
proof -
  have "map n_c (map (\<lambda>(i, d). \<lparr>files_id = fid, n_c = i, data_c = d\<rparr>) (enumerate k parts))
        = map fst (enumerate k parts)"
    by (simp add: case_prod_beta comp_def)
  then have "sorted (map n_c (map (\<lambda>(i, d). \<lparr>files_id = fid, n_c = i, data_c = d\<rparr>) (enumerate k parts)))"
    by (simp only: map_fst_enumerate) simp
  then show ?thesis by (rule sort_key_id_if_sorted)
qed

lemma data_enumerate:
  "map data_c (map (\<lambda>(i, d). \<lparr>files_id = fid, n_c = i, data_c = d\<rparr>) (enumerate k parts)) = parts"
proof -
  have "map data_c (map (\<lambda>(i, d). \<lparr>files_id = fid, n_c = i, data_c = d\<rparr>) (enumerate k parts))
        = map snd (enumerate k parts)"
    by (simp add: case_prod_beta comp_def)
  then show ?thesis by simp
qed

lemma bucket_ok_empty: "bucket_ok empty_bucket"
  by (simp add: bucket_ok_def empty_bucket_def)

lemma bucket_ok_pipe:
  "bucket_ok b \<Longrightarrow> bucket_ok (openUploadStream_pipe b fname cs ctype meta storageData)"
  by (auto simp: bucket_ok_def openUploadStream_pipe_def Let_def less_Suc_eq)

lemma bucket_ok_delete: "bucket_ok b \<Longrightarrow> bucket_ok (delete_b b fid)"
  by (auto simp: bucket_ok_def delete_b_def)

lemma next_id_pipe:
  "next_id (openUploadStream_pipe b fname cs ctype meta storageData) = Suc (next_id b)"
  by (simp add: openUploadStream_pipe_def Let_def)

lemma openDownloadStream_pipe_old:
  assumes "fid < next_id b"
  shows "openDownloadStream (openUploadStream_pipe b fname cs ctype meta storageData) fid
         = openDownloadStream b fid"
proof -
  have "filter (\<lambda>c. files_id c = fid)
          (map (\<lambda>(i, d). \<lparr>files_id = next_id b, n_c = i, data_c = d\<rparr>) (enumerate 0 parts)) = []" for parts
    using assms by (auto simp: filter_empty_conv)
  then show ?thesis
    by (simp add: openDownloadStream_def openUploadStream_pipe_def Let_def)
qed

lemma openDownloadStream_pipe_new:
  assumes "bucket_ok b"
  shows "concat (openDownloadStream (openUploadStream_pipe b fname cs ctype meta storageData) (next_id b))
         = storageData"
proof -
  let ?cs = "if cs = 0 then 255 * 1024 else cs"
  let ?new = "map (\<lambda>(i, d). \<lparr>files_id = next_id b, n_c = i, data_c = d\<rparr>)
                (enumerate 0 (split_chunks ?cs storageData))"
  from assms have old: "filter (\<lambda>c. files_id c = next_id b) (chunks_b b) = []"
    by (auto simp: bucket_ok_def filter_empty_conv)
  have new: "filter (\<lambda>c. files_id c = next_id b) ?new = ?new"
    by (auto simp: filter_id_conv)
  have "openDownloadStream (openUploadStream_pipe b fname cs ctype meta storageData) (next_id b)
        = map data_c (sort_key n_c ?new)"
    using old new by (simp add: openDownloadStream_def openUploadStream_pipe_def Let_def)
  also have "\<dots> = split_chunks ?cs storageData"
    by (simp only: sort_key_enumerate data_enumerate)
  finally show ?thesis by (simp add: concat_split_chunks)
qed

subsection \<open>Encryption and the upload loop\<close>

lemma decrypt_encrypt:
  assumes "length salt = salt_len prim" and "length nonce = nonce_len prim"
  shows "decryptStream prim (encryptStream prim plaintext K1 salt nonce) K2
         = (case unseal prim (kdf prim K2 salt) nonce (seal prim (kdf prim K1 salt) nonce plaintext) of
              None \<Rightarrow> Inl AuthenticationError | Some p \<Rightarrow> Inr p)"
  using assms by (simp add: decryptStream_def encryptStream_def)

lemma find_b_pipe:
  "find_b (openUploadStream_pipe b fname cs ctype meta storageData) q
   = find_b b q @ filter q [\<lparr>file_id = next_id b, filename = fname, contentType = ctype,
        chunkSize = (if cs = 0 then 255 * 1024 else cs), length_f = length storageData,
        metadata = meta\<rparr>]"
  by (simp add: find_b_def openUploadStream_pipe_def Let_def)

lemma find_b_less: "bucket_ok b \<Longrightarrow> f \<in> set (find_b b q) \<Longrightarrow> file_id f < next_id b"
  by (simp add: bucket_ok_def find_b_def)

lemma loop_bucket_ok:
  "bucket_ok b \<Longrightarrow> bucket_ok (fst (uploadFiles_loop prim h ident passphrase i b fl))"
  by (induction prim h ident passphrase i b fl rule: uploadFiles_loop.induct)
     (auto simp: bucket_ok_pipe Let_def split: option.splits)

lemma loop_find_extends:
  "\<exists>tl2. find_b (fst (uploadFiles_loop prim h ident passphrase i b fl)) q = find_b b q @ tl2"
  by (induction prim h ident passphrase i b fl rule: uploadFiles_loop.induct)
     (auto simp: find_b_pipe Let_def split: option.splits)

lemma loop_stream_old:
  "fid < next_id b \<Longrightarrow>
   openDownloadStream (fst (uploadFiles_loop prim h ident passphrase i b fl)) fid
   = openDownloadStream b fid"
  by (induction prim h ident passphrase i b fl rule: uploadFiles_loop.induct)
     (auto simp: openDownloadStream_pipe_old next_id_pipe Let_def split: option.splits)

lemma download_found_cong:
  assumes "openDownloadStream b' (file_id f) = openDownloadStream b (file_id f)"
  shows "download_found prim b' req (Some (f # tl1)) = download_found prim b req (Some (f # tl2))"
  using assms by (simp add: download_found_def)

lemma loop_download_stable:
  assumes ok: "bucket_ok b"
    and found: "find_b b (by_owner_and_name (jwt_id req) (params_name req)) \<noteq> []"
  shows "download prim (fst (uploadFiles_loop prim h ident passphrase i b fl)) req = download prim b req"
proof -
  let ?q = "by_owner_and_name (jwt_id req) (params_name req)"
  let ?b' = "fst (uploadFiles_loop prim h ident passphrase i b fl)"
  from found obtain f rest where f: "find_b b ?q = f # rest"
    by (cases "find_b b ?q") auto
  obtain tl2 where tl2: "find_b ?b' ?q = find_b b ?q @ tl2"
    using loop_find_extends by blast
  from ok f have "file_id f < next_id b"
    by (intro find_b_less [of b f ?q]) simp_all
  then have "openDownloadStream ?b' (file_id f) = openDownloadStream b (file_id f)"
    by (rule loop_stream_old)
  then show ?thesis
    unfolding download_def tl2 f by (simp add: download_found_cong)
qed

lemma loop_success:
  "snd (uploadFiles_loop prim h ident (Some K) i b (map Some fs))
   = [Status_json 200 (Json_status ''success'')]"
  by (induction fs arbitrary: i b) (simp_all add: Let_def)

lemma loop_count:
  "length (find_b (fst (uploadFiles_loop prim h ident (Some K) i b (map Some fs)))
             (by_owner_and_name ident' fname))
   = length (find_b b (by_owner_and_name ident' fname))
     + (if ident' = ident then length (filter (\<lambda>f. name f = fname) fs) else 0)"
  by (induction fs arbitrary: i b)
     (auto simp: Let_def find_b_pipe by_owner_and_name_def)

lemma download_pipe_new:
  assumes ok: "bucket_ok b"
    and fresh: "find_b b (by_owner_and_name (jwt_id req) (params_name req)) = []"
    and own: "id_m meta = jwt_id req" and nm: "fname = params_name req"
  shows "download prim (openUploadStream_pipe b fname cs ctype meta storageData) req
         = [Set_headers [(''Accept-Ranges'', ''bytes''),
                (''Content-Disposition'', ''attachment; filename='' @ params_name req),
                (''Content-Type'', ctype)]]
           @ (case headers_passphrase req of
                None \<Rightarrow> [Unhandled TypeError]
              | Some pw \<Rightarrow>
                  (case decryptStream prim storageData pw of
                     Inl e \<Rightarrow> [Unhandled e] | Inr decrypt \<Rightarrow> [Pipe decrypt]))"
  unfolding download_def find_b_pipe fresh
  using own nm openDownloadStream_pipe_new [OF ok, of fname cs ctype meta storageData]
  by (simp add: by_owner_and_name_def download_found_def cong: option.case_cong)

lemma loop_download_new:
  assumes "bucket_ok b" and "k < length fs"
    and "\<forall>j<k. name (fs ! j) \<noteq> name (fs ! k)"
    and "find_b b (by_owner_and_name ident (name (fs ! k))) = []"
    and "jwt_id req = ident" and "params_name req = name (fs ! k)"
  shows "download prim (fst (uploadFiles_loop prim h ident (Some K) i b (map Some fs))) req
         = [Set_headers [(''Accept-Ranges'', ''bytes''),
                (''Content-Disposition'', ''attachment; filename='' @ name (fs ! k)),
                (''Content-Type'', mimetype (fs ! k))]]
           @ (case headers_passphrase req of
                None \<Rightarrow> [Unhandled TypeError]
              | Some pw \<Rightarrow>
                  (case decryptStream prim
                          (encryptStream prim (data (fs ! k)) K
                             (fst (random h (i + k))) (snd (random h (i + k)))) pw of
                     Inl e \<Rightarrow> [Unhandled e] | Inr decrypt \<Rightarrow> [Pipe decrypt]))"
  using assms
proof (induction fs arbitrary: b i k)
  case Nil
  then show ?case by simp
next
  case (Cons g rest)
  let ?meta = "\<lparr>id_m = ident, md5_m = md5 g,
       info_m = \<lparr>fileName = name g, createDate = toDateString h,
         lastModified = toDateString h, fileSize = toFixed_MB h (size_f g),
         type_i = mimetype g\<rparr>\<rparr>"
  let ?sd = "encryptStream prim (data g) K (fst (random h i)) (snd (random h i))"
  let ?b1 = "openUploadStream_pipe b (name g) (size_f g) (mimetype g) ?meta ?sd"
  have step: "uploadFiles_loop prim h ident (Some K) i b (map Some (g # rest))
              = uploadFiles_loop prim h ident (Some K) (Suc i) ?b1 (map Some rest)"
    by (simp add: Let_def)
  have ok1: "bucket_ok ?b1" using Cons.prems(1) by (rule bucket_ok_pipe)
  show ?case
  proof (cases k)
    case 0
    with Cons.prems have fresh: "find_b b (by_owner_and_name (jwt_id req) (params_name req)) = []"
      and nm: "name g = params_name req" and own: "id_m ?meta = jwt_id req"
      by simp_all
    have new: "download prim ?b1 req
         = [Set_headers [(''Accept-Ranges'', ''bytes''),
                (''Content-Disposition'', ''attachment; filename='' @ params_name req),
                (''Content-Type'', mimetype g)]]
           @ (case headers_passphrase req of
                None \<Rightarrow> [Unhandled TypeError]
              | Some pw \<Rightarrow>
                  (case decryptStream prim ?sd pw of
                     Inl e \<Rightarrow> [Unhandled e] | Inr decrypt \<Rightarrow> [Pipe decrypt]))"
      by (rule download_pipe_new [OF Cons.prems(1) fresh own nm])
    have "find_b ?b1 (by_owner_and_name (jwt_id req) (params_name req)) \<noteq> []"
      using own nm by (simp add: find_b_pipe by_owner_and_name_def)
    with ok1 have "download prim (fst (uploadFiles_loop prim h ident (Some K) (Suc i) ?b1 (map Some rest))) req
                   = download prim ?b1 req"
      by (rule loop_download_stable)
    then have "download prim (fst (uploadFiles_loop prim h ident (Some K) i b (map Some (g # rest)))) req
               = download prim ?b1 req"
      by (simp only: step)
    then show ?thesis
      by (simp only: new) (simp add: 0 nm [symmetric] cong: option.case_cong)
  next
    case (Suc k')
    with Cons.prems have k': "k' < length rest"
      and names: "\<forall>j<k'. name (rest ! j) \<noteq> name (rest ! k')"
      and other: "name g \<noteq> name (rest ! k')"
      and fresh: "find_b b (by_owner_and_name ident (name (rest ! k'))) = []"
      and req: "jwt_id req = ident" "params_name req = name (rest ! k')"
      by auto
    from fresh other have fresh1: "find_b ?b1 (by_owner_and_name ident (name (rest ! k'))) = []"
      by (simp add: find_b_pipe by_owner_and_name_def)
    have "download prim (fst (uploadFiles_loop prim h ident (Some K) i b (map Some (g # rest)))) req
          = download prim (fst (uploadFiles_loop prim h ident (Some K) (Suc i) ?b1 (map Some rest))) req"
      by (simp only: step)
    then show ?thesis
      by (simp only: Cons.IH [OF ok1 k' names fresh1 req, of "Suc i"])
         (simp add: Suc cong: option.case_cong)
  qed
qed

lemma loop_stream_new:
  assumes "bucket_ok b" and "k < length fs"
  shows "concat (openDownloadStream
            (fst (uploadFiles_loop prim h ident (Some K) i b (map Some fs))) (next_id b + k))
         = encryptStream prim (data (fs ! k)) K (fst (random h (i + k))) (snd (random h (i + k)))"
  using assms
proof (induction fs arbitrary: b i k)
  case Nil
  then show ?case by simp
next
  case (Cons g rest)
  let ?meta = "\<lparr>id_m = ident, md5_m = md5 g,
       info_m = \<lparr>fileName = name g, createDate = toDateString h,
         lastModified = toDateString h, fileSize = toFixed_MB h (size_f g),
         type_i = mimetype g\<rparr>\<rparr>"
  let ?sd = "encryptStream prim (data g) K (fst (random h i)) (snd (random h i))"
  let ?b1 = "openUploadStream_pipe b (name g) (size_f g) (mimetype g) ?meta ?sd"
  have step: "uploadFiles_loop prim h ident (Some K) i b (map Some (g # rest))
              = uploadFiles_loop prim h ident (Some K) (Suc i) ?b1 (map Some rest)"
    by (simp add: Let_def)
  have ok1: "bucket_ok ?b1" using Cons.prems(1) by (rule bucket_ok_pipe)
  have nxt: "next_id ?b1 = Suc (next_id b)" by (rule next_id_pipe)
  show ?case
  proof (cases k)
    case 0
    have "next_id b < next_id ?b1" by (simp add: nxt)
    then have "openDownloadStream (fst (uploadFiles_loop prim h ident (Some K) (Suc i) ?b1 (map Some rest)))
                 (next_id b)
               = openDownloadStream ?b1 (next_id b)"
      by (rule loop_stream_old)
    moreover have "concat (openDownloadStream ?b1 (next_id b)) = ?sd"
      using Cons.prems(1) by (rule openDownloadStream_pipe_new)
    ultimately show ?thesis by (simp only: step) (simp add: 0)
  next
    case (Suc k')
    with Cons.prems have "k' < length rest" by simp
    from Cons.IH [OF ok1 this, of "Suc i"] show ?thesis
      by (simp only: step) (simp add: Suc nxt)
  qed
qed

subsection \<open>The example cipher\<close>

lemma key_mark_inj: "key_mark a @ p = key_mark b @ q \<Longrightarrow> a = b"
proof (induction a arbitrary: b)
  case Nil
  then show ?case by (cases b) simp_all
next
  case (Cons x xs)
  then show ?case by (cases b) auto
qed

lemma byte_of_char_inj: "(of_nat (of_char c) :: byte) = of_nat (of_char d) \<Longrightarrow> c = d"
proof -
  assume "(of_nat (of_char c) :: byte) = of_nat (of_char d)"
  then have "unat (of_nat (of_char c) :: byte) = unat (of_nat (of_char d) :: byte)" by simp
  then have "(of_char c :: nat) mod 256 = of_char d mod 256" by (simp add: unat_of_nat)
  then show "c = d" by simp
qed

lemma opens_own_sample: "opens_own sample_aead"
  by (simp add: opens_own_def sample_aead_def)

lemma rejects_other_passphrase_sample: "rejects_other_passphrase sample_aead"
proof -
  have "take (length (key_mark k2)) (key_mark k1 @ p) \<noteq> key_mark k2" if "k1 \<noteq> k2" for k1 k2 p
  proof
    assume "take (length (key_mark k2)) (key_mark k1 @ p) = key_mark k2"
    then have "key_mark k1 @ p = key_mark k2 @ drop (length (key_mark k2)) (key_mark k1 @ p)"
      by (metis append_take_drop_id)
    then have "k1 = k2" by (rule key_mark_inj)
    with that show False by simp
  qed
  moreover have "salt @ map (\<lambda>c. of_nat (of_char c) :: byte) K1
                 \<noteq> salt @ map (\<lambda>c. of_nat (of_char c)) K2" if "K1 \<noteq> K2" for K1 K2 salt
  proof -
    have "inj (\<lambda>c. of_nat (of_char c) :: byte)"
      by (rule injI) (rule byte_of_char_inj)
    with that show ?thesis by (simp add: inj_map_eq_map)
  qed
  ultimately show ?thesis
    by (simp add: rejects_other_passphrase_def sample_aead_def)
qed

subsection \<open>Round trip of upload and download\<close>

text \<open>
  When one stored object only has the owner and filename asked for, the order of the
  file documents in the collection does not matter to a download.
\<close>

lemma filter_only_index:
  assumes "k < length fs" and "\<forall>j<length fs. j \<noteq> k \<longrightarrow> name (fs ! j) \<noteq> name (fs ! k)"
  shows "filter (\<lambda>f. name f = name (fs ! k)) fs = [fs ! k]"
proof -
  have split: "fs = take k fs @ fs ! k # drop (Suc k) fs"
    using assms(1) by (rule id_take_nth_drop)
  have before: "filter (\<lambda>f. name f = name (fs ! k)) (take k fs) = []"
    using assms by (auto simp: filter_empty_conv in_set_conv_nth)
  have "name x \<noteq> name (fs ! k)" if "x \<in> set (drop (Suc k) fs)" for x
  proof -
    from that obtain i where "i < length fs - Suc k" and "x = fs ! (Suc k + i)"
      by (auto simp: in_set_conv_nth)
    with assms(2) show ?thesis by auto
  qed
  then have after: "filter (\<lambda>f. name f = name (fs ! k)) (drop (Suc k) fs) = []"
    by (auto simp: filter_empty_conv)
  have "filter (\<lambda>f. name f = name (fs ! k)) fs
        = filter (\<lambda>f. name f = name (fs ! k)) (take k fs @ fs ! k # drop (Suc k) fs)"
    using split by simp
  also have "\<dots> = [fs ! k]" using before after by simp
  finally show ?thesis .
qed

lemma distinct_singleton_set: "distinct xs \<Longrightarrow> set xs = {x} \<Longrightarrow> xs = [x]"
  by (cases xs) (auto simp: subset_singleton_iff dest!: subset_singletonD)

lemma find_b_any_order:
  assumes "find_b b1 q = [f]"
    and "set (files_b b2) = set (files_b b1)" and "distinct (files_b b2)"
  shows "find_b b2 q = [f]"
proof -
  have "set (find_b b2 q) = set (find_b b1 q)"
    using assms(2) by (simp add: find_b_def)
  moreover have "distinct (find_b b2 q)"
    using assms(3) by (simp add: find_b_def)
  ultimately show ?thesis using assms(1) by (simp add: distinct_singleton_set)
qed

lemma download_any_order:
  assumes "find_b b1 (by_owner_and_name (jwt_id req) (params_name req)) = [f]"
    and "set (files_b b2) = set (files_b b1)" and "distinct (files_b b2)"
    and "chunks_b b2 = chunks_b b1"
  shows "download prim b2 req = download prim b1 req"
proof -
  have "find_b b2 (by_owner_and_name (jwt_id req) (params_name req)) = [f]"
    using assms(1,2,3) by (rule find_b_any_order)
  moreover have "openDownloadStream b2 (file_id f) = openDownloadStream b1 (file_id f)"
    using assms(4) by (simp add: openDownloadStream_def)
  ultimately show ?thesis
    using assms(1) by (simp add: download_def download_found_cong)
qed

lemma loop_find_only:
  assumes "k < length fs" and "\<forall>j<length fs. j \<noteq> k \<longrightarrow> name (fs ! j) \<noteq> name (fs ! k)"
    and "find_b b (by_owner_and_name ident (name (fs ! k))) = []"
  shows "\<exists>f. find_b (fst (uploadFiles_loop prim h ident (Some K) i b (map Some fs)))
              (by_owner_and_name ident (name (fs ! k))) = [f]"
proof -
  have "length (find_b (fst (uploadFiles_loop prim h ident (Some K) i b (map Some fs)))
              (by_owner_and_name ident (name (fs ! k)))) = 1"
    by (simp only: loop_count) (simp add: assms(3) filter_only_index [OF assms(1,2)])
  then show ?thesis by (simp add: length_Suc_conv)
qed

text \<open>
  Claim C1, as amended.  For every plaintext \<open>P\<close> and passphrase \<open>K\<close>, decrypting
  with \<open>K\<close> what encrypting \<open>P\<close> with \<open>K\<close> produced yields \<open>P\<close>, and the chunks stored
  under the \<^verbatim>\<open>_id\<close> of an uploaded object, concatenated and decrypted with \<open>K\<close>, give
  \<open>P\<close>.  Downloading sends exactly \<open>P\<close> when the uploaded object is the only stored
  object with its owner and filename: no object with that owner and filename was in
  the bucket before, and no other file of the request has that filename.  This holds
  in whatever order the file documents of the bucket have landed.  The object is the
  \<open>k\<close>-th file of an upload request, \<open>P\<close> its data.  The cipher opens what it sealed,
  and the random generator gives salts and nonces of the sizes that the format fixes.
\<close>

theorem upload_unique_name_download_roundtrip:
  assumes "opens_own prim"
    and "\<forall>i. length (fst (random h i)) = salt_len prim \<and> length (snd (random h i)) = nonce_len prim"
    and "bucket_ok b"
    and "files up = Some field" and "fileList_of field = map Some fs"
    and "body_passphrase up = Some K"
    and "k < length fs"
  shows "decryptStream prim
           (encryptStream prim (data (fs ! k)) K (fst (random h k)) (snd (random h k))) K
         = Inr (data (fs ! k))
       \<and> decryptStream prim
           (concat (openDownloadStream (fst (uploadFiles prim h b up)) (next_id b + k))) K
         = Inr (data (fs ! k))
       \<and> ((\<forall>j<length fs. j \<noteq> k \<longrightarrow> name (fs ! j) \<noteq> name (fs ! k))
            \<and> find_b b (by_owner_and_name (jwt_id up) (name (fs ! k))) = []
            \<and> jwt_id down = jwt_id up \<and> params_name down = name (fs ! k)
            \<and> headers_passphrase down = Some K \<longrightarrow>
          download prim (fst (uploadFiles prim h b up)) down
          = [Set_headers [(''Accept-Ranges'', ''bytes''),
                (''Content-Disposition'', ''attachment; filename='' @ name (fs ! k)),
                (''Content-Type'', mimetype (fs ! k))],
             Pipe (data (fs ! k))]
          \<and> (\<forall>b2. set (files_b b2) = set (files_b (fst (uploadFiles prim h b up)))
                  \<and> distinct (files_b b2)
                  \<and> chunks_b b2 = chunks_b (fst (uploadFiles prim h b up)) \<longrightarrow>
                download prim b2 down
                = [Set_headers [(''Accept-Ranges'', ''bytes''),
                      (''Content-Disposition'', ''attachment; filename='' @ name (fs ! k)),
                      (''Content-Type'', mimetype (fs ! k))],
                   Pipe (data (fs ! k))]))"
proof -
  let ?b' = "fst (uploadFiles prim h b up)"
  let ?sent = "[Set_headers [(''Accept-Ranges'', ''bytes''),
                (''Content-Disposition'', ''attachment; filename='' @ name (fs ! k)),
                (''Content-Type'', mimetype (fs ! k))],
             Pipe (data (fs ! k))]"
  from assms(1,2) have dec: "decryptStream prim
           (encryptStream prim (data (fs ! k)) K (fst (random h k)) (snd (random h k))) K
         = Inr (data (fs ! k))"
    by (simp add: decrypt_encrypt opens_own_def)
  have up: "uploadFiles prim h b up
            = uploadFiles_loop prim h (jwt_id up) (Some K) 0 b (map Some fs)"
    using assms(4,5,6) by (simp add: uploadFiles_def)
  have stored: "concat (openDownloadStream ?b' (next_id b + k))
        = encryptStream prim (data (fs ! k)) K (fst (random h k)) (snd (random h k))"
    unfolding up using loop_stream_new [OF assms(3,7), of prim h "jwt_id up" K 0] by simp
  have served: "download prim ?b' down = ?sent
        \<and> (\<forall>b2. set (files_b b2) = set (files_b ?b') \<and> distinct (files_b b2)
                  \<and> chunks_b b2 = chunks_b ?b' \<longrightarrow> download prim b2 down = ?sent)"
    if only: "\<forall>j<length fs. j \<noteq> k \<longrightarrow> name (fs ! j) \<noteq> name (fs ! k)"
      and fresh: "find_b b (by_owner_and_name (jwt_id up) (name (fs ! k))) = []"
      and caller: "jwt_id down = jwt_id up" and nm: "params_name down = name (fs ! k)"
      and pass: "headers_passphrase down = Some K"
  proof -
    from only assms(7) have earlier: "\<forall>j<k. name (fs ! j) \<noteq> name (fs ! k)" by auto
    have here: "download prim ?b' down = ?sent"
      unfolding up
      using loop_download_new [OF assms(3,7) earlier fresh caller nm, of prim h K 0] dec pass
      by simp
    obtain f where f: "find_b ?b' (by_owner_and_name (jwt_id down) (params_name down)) = [f]"
      unfolding up caller nm
      using loop_find_only [OF assms(7) only fresh, of prim h K 0] by blast
    have "download prim b2 down = ?sent"
      if "set (files_b b2) = set (files_b ?b')" and "distinct (files_b b2)"
        and "chunks_b b2 = chunks_b ?b'" for b2
      using download_any_order [OF f that] here by simp
    with here show ?thesis by blast
  qed
  from dec stored served show ?thesis by (simp add: dec)
qed

theorem upload_unique_name_download_roundtrip_witness:
  "files alice_batch = Some (Many [report_pdf, setup_exe])
   \<and> body_passphrase alice_batch = Some ''correct-horse''
   \<and> name setup_exe \<noteq> name report_pdf
   \<and> find_b empty_bucket (by_owner_and_name (jwt_id alice_batch) (name report_pdf)) = []
   \<and> jwt_id alice_request = jwt_id alice_batch
   \<and> params_name alice_request = name report_pdf
   \<and> headers_passphrase alice_request = Some ''correct-horse''
   \<and> decryptStream sample_aead (concat (openDownloadStream bucket4 0)) ''correct-horse''
       = Inr [0x25, 0x50, 0x44, 0x46, 0x2D]
   \<and> map filename (files_b bucket4) = [''report.pdf'', ''setup.exe'']
   \<and> download sample_aead bucket4 alice_request
       = [Set_headers [(''Accept-Ranges'', ''bytes''),
             (''Content-Disposition'', ''attachment; filename=report.pdf''),
             (''Content-Type'', ''application/pdf'')],
          Pipe [0x25, 0x50, 0x44, 0x46, 0x2D]]
   \<and> map filename (files_b bucket4_rev) = [''setup.exe'', ''report.pdf'']
   \<and> download sample_aead bucket4_rev alice_request
       = [Set_headers [(''Accept-Ranges'', ''bytes''),
             (''Content-Disposition'', ''attachment; filename=report.pdf''),
             (''Content-Type'', ''application/pdf'')],
          Pipe [0x25, 0x50, 0x44, 0x46, 0x2D]]"
proof -
  have h1: "opens_own sample_aead" by (rule opens_own_sample)
  have h2: "\<forall>i. length (fst (random sample_host i)) = salt_len sample_aead
              \<and> length (snd (random sample_host i)) = nonce_len sample_aead"
    by (simp add: sample_host_def sample_aead_def)
  have h3: "bucket_ok empty_bucket" by (rule bucket_ok_empty)
  have h4: "files alice_batch = Some (Many [report_pdf, setup_exe])"
    by (simp add: alice_batch_def)
  have h5: "fileList_of (Many [report_pdf, setup_exe]) = map Some [report_pdf, setup_exe]" by simp
  have h6: "body_passphrase alice_batch = Some ''correct-horse''"
    by (simp add: alice_batch_def alice_upload_def)
  have h7: "(0::nat) < length [report_pdf, setup_exe]" by simp
  have names: "name setup_exe \<noteq> name report_pdf"
    by (simp add: setup_exe_def report_pdf_def)
  then have c0: "\<forall>j<length [report_pdf, setup_exe]. j \<noteq> 0 \<longrightarrow>
       name ([report_pdf, setup_exe] ! j) \<noteq> name ([report_pdf, setup_exe] ! 0)"
    by (simp add: less_Suc_eq)
  have c1: "find_b empty_bucket (by_owner_and_name (jwt_id alice_batch) (name report_pdf)) = []"
    by (simp add: find_b_def empty_bucket_def)
  have c2: "jwt_id alice_request = jwt_id alice_batch"
    by (simp add: alice_request_def alice_batch_def alice_upload_def blank_def)
  have c3: "params_name alice_request = name report_pdf"
    by (simp add: alice_request_def report_pdf_def)
  have c4: "headers_passphrase alice_request = Some ''correct-horse''"
    by (simp add: alice_request_def)
  have order: "map filename (files_b bucket4) = [''report.pdf'', ''setup.exe'']"
    and order_rev: "map filename (files_b bucket4_rev) = [''setup.exe'', ''report.pdf'']"
    and d: "distinct (files_b bucket4_rev)"
    by code_simp+
  have s: "set (files_b bucket4_rev) = set (files_b bucket4)"
    and ch: "chunks_b bucket4_rev = chunks_b bucket4"
    by (simp_all add: bucket4_rev_def)
  note r = upload_unique_name_download_roundtrip [OF h1 h2 h3 h4 h5 h6 h7, of alice_request,
      folded bucket4_def]
  from r have stored: "decryptStream sample_aead (concat (openDownloadStream bucket4 0))
       ''correct-horse'' = Inr [0x25, 0x50, 0x44, 0x46, 0x2D]"
    by (simp add: empty_bucket_def report_pdf_def)
  from r c0 c1 c2 c3 c4 have served: "download sample_aead bucket4 alice_request
       = [Set_headers [(''Accept-Ranges'', ''bytes''),
             (''Content-Disposition'', ''attachment; filename=report.pdf''),
             (''Content-Type'', ''application/pdf'')],
          Pipe [0x25, 0x50, 0x44, 0x46, 0x2D]]"
    and any: "\<forall>b2. set (files_b b2) = set (files_b bucket4) \<and> distinct (files_b b2)
                \<and> chunks_b b2 = chunks_b bucket4 \<longrightarrow>
              download sample_aead b2 alice_request
              = [Set_headers [(''Accept-Ranges'', ''bytes''),
                   (''Content-Disposition'', ''attachment; filename=report.pdf''),
                   (''Content-Type'', ''application/pdf'')],
                 Pipe [0x25, 0x50, 0x44, 0x46, 0x2D]]"
    by (simp_all add: report_pdf_def)
  from any s d ch have "download sample_aead bucket4_rev alice_request
       = [Set_headers [(''Accept-Ranges'', ''bytes''),
             (''Content-Disposition'', ''attachment; filename=report.pdf''),
             (''Content-Type'', ''application/pdf'')],
          Pipe [0x25, 0x50, 0x44, 0x46, 0x2D]]"
    by blast
  with h4 h6 names c1 c2 c3 c4 stored order served order_rev show ?thesis by simp
qed

text \<open>
  The claim as stated fails when an object with the same owner and filename is already
  stored: Alice uploads a second \<^verbatim>\<open>report.pdf\<close> with other bytes and the same
  passphrase, the upload answers 200, and the download of \<^verbatim>\<open>report.pdf\<close> with that
  passphrase sends the bytes of the first.
\<close>

theorem upload_same_name_download_counterexample:
  "jwt_id alice_upload_v2 = jwt_id alice_request
   \<and> name report_pdf_v2 = params_name alice_request
   \<and> body_passphrase alice_upload_v2 = headers_passphrase alice_request
   \<and> data report_pdf_v2 = [0x25, 0x50, 0x44, 0x46, 0x2D, 0x32]
   \<and> snd (uploadFiles sample_aead sample_host bucket1 alice_upload_v2)
       = [Status_json 200 (Json_status ''success'')]
   \<and> download sample_aead bucket5 alice_request
       = [Set_headers [(''Accept-Ranges'', ''bytes''),
             (''Content-Disposition'', ''attachment; filename=report.pdf''),
             (''Content-Type'', ''application/pdf'')],
          Pipe [0x25, 0x50, 0x44, 0x46, 0x2D]]
   \<and> sent (download sample_aead bucket5 alice_request) \<noteq> data report_pdf_v2"
  by code_simp

subsection \<open>Download with another passphrase\<close>

text \<open>
  Whatever makes \<^verbatim>\<open>decryptStream\<close> fail on the stored bytes, a wrong passphrase or a
  changed ciphertext, the callback sends nothing.
\<close>

lemma download_found_failure_sends_nothing:
  "headers_passphrase req = Some pw \<Longrightarrow>
   decryptStream prim (concat (openDownloadStream b (file_id f))) pw = Inl e \<Longrightarrow>
   sent (download_found prim b req (Some (f # rest))) = []"
  by (simp add: download_found_def)

text \<open>
  Claim C2.  For every plaintext \<open>P\<close> and distinct passphrases \<open>K1\<close> and \<open>K2\<close>,
  decrypting with \<open>K2\<close> what encrypting \<open>P\<close> with \<open>K1\<close> produced fails with
  \<open>AuthenticationError\<close>, for the ciphertext as \<^verbatim>\<open>encryptStream\<close> returns it and as the
  bucket gives it back; and a download with \<open>K2\<close> of an object uploaded with \<open>K1\<close>
  sends no bytes: the listener decrypts the whole buffer before it writes, and the
  failure ends it.  The cipher is taken to reject, under the key of one passphrase,
  every text sealed under the key of another.
\<close>

theorem download_other_passphrase_fails:
  assumes "rejects_other_passphrase prim"
    and "\<forall>i. length (fst (random h i)) = salt_len prim \<and> length (snd (random h i)) = nonce_len prim"
    and "bucket_ok b"
    and "files up = Some field" and "fileList_of field = map Some fs"
    and "body_passphrase up = Some K1"
    and "k < length fs"
    and "K1 \<noteq> K2"
  shows "decryptStream prim
           (encryptStream prim (data (fs ! k)) K1 (fst (random h k)) (snd (random h k))) K2
         = Inl AuthenticationError
       \<and> decryptStream prim
           (concat (openDownloadStream (fst (uploadFiles prim h b up)) (next_id b + k))) K2
         = Inl AuthenticationError
       \<and> ((\<forall>j<k. name (fs ! j) \<noteq> name (fs ! k))
            \<and> find_b b (by_owner_and_name (jwt_id up) (name (fs ! k))) = []
            \<and> jwt_id down = jwt_id up \<and> params_name down = name (fs ! k)
            \<and> headers_passphrase down = Some K2 \<longrightarrow>
          download prim (fst (uploadFiles prim h b up)) down
          = [Set_headers [(''Accept-Ranges'', ''bytes''),
                (''Content-Disposition'', ''attachment; filename='' @ name (fs ! k)),
                (''Content-Type'', mimetype (fs ! k))],
             Unhandled AuthenticationError]
          \<and> sent (download prim (fst (uploadFiles prim h b up)) down) = [])"
proof -
  from assms(1,8) have "unseal prim (kdf prim K2 (fst (random h k))) (snd (random h k))
      (seal prim (kdf prim K1 (fst (random h k))) (snd (random h k)) (data (fs ! k))) = None"
    by (simp add: rejects_other_passphrase_def)
  with assms(2) have dec: "decryptStream prim
           (encryptStream prim (data (fs ! k)) K1 (fst (random h k)) (snd (random h k))) K2
         = Inl AuthenticationError"
    by (simp add: decrypt_encrypt)
  have up: "uploadFiles prim h b up
            = uploadFiles_loop prim h (jwt_id up) (Some K1) 0 b (map Some fs)"
    using assms(4,5,6) by (simp add: uploadFiles_def)
  have stored: "concat (openDownloadStream (fst (uploadFiles prim h b up)) (next_id b + k))
        = encryptStream prim (data (fs ! k)) K1 (fst (random h k)) (snd (random h k))"
    unfolding up using loop_stream_new [OF assms(3,7), of prim h "jwt_id up" K1 0] by simp
  have "download prim (fst (uploadFiles prim h b up)) down
          = [Set_headers [(''Accept-Ranges'', ''bytes''),
                (''Content-Disposition'', ''attachment; filename='' @ name (fs ! k)),
                (''Content-Type'', mimetype (fs ! k))],
             Unhandled AuthenticationError]"
    if "\<forall>j<k. name (fs ! j) \<noteq> name (fs ! k)"
      and "find_b b (by_owner_and_name (jwt_id up) (name (fs ! k))) = []"
      and "jwt_id down = jwt_id up" and "params_name down = name (fs ! k)"
      and "headers_passphrase down = Some K2"
    unfolding up
    using loop_download_new [OF assms(3,7) that(1,2,3,4), of prim h K1 0] dec that(5) by simp
  with dec stored show ?thesis by simp
qed

theorem download_other_passphrase_fails_witness:
  "files alice_upload = Some (One report_pdf)
   \<and> body_passphrase alice_upload = Some ''correct-horse''
   \<and> find_b empty_bucket (by_owner_and_name (jwt_id alice_upload) (name report_pdf)) = []
   \<and> jwt_id (alice_request\<lparr>headers_passphrase := Some ''wrong''\<rparr>) = jwt_id alice_upload
   \<and> params_name (alice_request\<lparr>headers_passphrase := Some ''wrong''\<rparr>) = name report_pdf
   \<and> decryptStream sample_aead (concat (openDownloadStream bucket1 0)) ''wrong''
       = Inl AuthenticationError
   \<and> download sample_aead bucket1 (alice_request\<lparr>headers_passphrase := Some ''wrong''\<rparr>)
       = [Set_headers [(''Accept-Ranges'', ''bytes''),
             (''Content-Disposition'', ''attachment; filename=report.pdf''),
             (''Content-Type'', ''application/pdf'')],
          Unhandled AuthenticationError]
   \<and> sent (download sample_aead bucket1 (alice_request\<lparr>headers_passphrase := Some ''wrong''\<rparr>))
       = []"
proof -
  let ?down = "alice_request\<lparr>headers_passphrase := Some ''wrong''\<rparr>"
  have h1: "rejects_other_passphrase sample_aead" by (rule rejects_other_passphrase_sample)
  have h2: "\<forall>i. length (fst (random sample_host i)) = salt_len sample_aead
              \<and> length (snd (random sample_host i)) = nonce_len sample_aead"
    by (simp add: sample_host_def sample_aead_def)
  have h3: "bucket_ok empty_bucket" by (rule bucket_ok_empty)
  have h4: "files alice_upload = Some (One report_pdf)" by (simp add: alice_upload_def)
  have h5: "fileList_of (One report_pdf) = map Some [report_pdf]" by simp
  have h6: "body_passphrase alice_upload = Some ''correct-horse''" by (simp add: alice_upload_def)
  have h7: "(0::nat) < length [report_pdf]" by simp
  have h8: "''correct-horse'' \<noteq> ''wrong''" by simp
  have c1: "find_b empty_bucket (by_owner_and_name (jwt_id alice_upload) (name report_pdf)) = []"
    by (simp add: find_b_def empty_bucket_def)
  have c2: "jwt_id ?down = jwt_id alice_upload"
    by (simp add: alice_request_def alice_upload_def blank_def)
  have c3: "params_name ?down = name report_pdf"
    by (simp add: alice_request_def report_pdf_def)
  have c4: "headers_passphrase ?down = Some ''wrong''" by simp
  note r = download_other_passphrase_fails [OF h1 h2 h3 h4 h5 h6 h7 h8, of ?down,
      folded bucket1_def]
  from r have "decryptStream sample_aead (concat (openDownloadStream bucket1 0)) ''wrong''
       = Inl AuthenticationError"
    by (simp add: empty_bucket_def)
  moreover from r c1 c2 c3 c4 have "download sample_aead bucket1 ?down
       = [Set_headers [(''Accept-Ranges'', ''bytes''),
             (''Content-Disposition'', ''attachment; filename=report.pdf''),
             (''Content-Type'', ''application/pdf'')],
          Unhandled AuthenticationError]
     \<and> sent (download sample_aead bucket1 ?down) = []"
    by (simp add: report_pdf_def)
  ultimately show ?thesis using h4 h6 c1 c2 c3 by simp
qed

subsection \<open>Ownership on download\<close>

lemma find_b_sat: "f \<in> set (find_b b q) \<Longrightarrow> q f"
  by (simp add: find_b_def)

lemma download_never_403:
  "Next (Some (AppError ''Permission denied!'' (Some 403))) \<notin> set (download prim b req)"
proof (cases "find_b b (by_owner_and_name (jwt_id req) (params_name req))")
  case Nil
  then show ?thesis by (simp add: download_def download_found_def)
next
  case (Cons f rest)
  then have "f \<in> set (find_b b (by_owner_and_name (jwt_id req) (params_name req)))" by simp
  then have "id_m (metadata f) = jwt_id req"
    by (auto dest: find_b_sat simp: by_owner_and_name_def)
  with Cons show ?thesis
    by (auto simp: download_def download_found_def split: option.splits sum.splits)
qed

text \<open>
  The callback itself, handed a first record of a foreign owner, reports 403 and goes
  on with the calls that serve the file: the branch has no \<^verbatim>\<open>return\<close>.
\<close>

lemma download_found_foreign_record_goes_on:
  "id_m (metadata f) \<noteq> jwt_id req \<Longrightarrow>
   download_found prim b req (Some (f # rest))
   = Next (Some (AppError ''Permission denied!'' (Some 403)))
     # download_found prim b (req\<lparr>jwt_id := id_m (metadata f)\<rparr>) (Some (f # rest))"
  by (simp add: download_found_def)

text \<open>
  Claim C3, as amended.  For every download request, if every stored object with the
  requested filename is recorded as owned by somebody other than the caller, the
  operation fails with 404 "Not found!" and no file content is sent: the owner filter
  of the storage query leaves such records out.  The check of the returned record's
  owner field is never reached with a foreign record, so no download ends in 403
  "Permission denied!".
\<close>

theorem download_foreign_object_not_found:
  "((\<forall>f \<in> set (files_b b). filename f = params_name req \<longrightarrow> id_m (metadata f) \<noteq> jwt_id req)
      \<longrightarrow> download prim b req = [Next (Some (AppError ''Not found!'' (Some 404)))]
          \<and> sent (download prim b req) = [])
   \<and> Next (Some (AppError ''Permission denied!'' (Some 403))) \<notin> set (download prim b req)"
proof -
  have "find_b b (by_owner_and_name (jwt_id req) (params_name req)) = []"
    if "\<forall>f \<in> set (files_b b). filename f = params_name req \<longrightarrow> id_m (metadata f) \<noteq> jwt_id req"
    using that by (auto simp: find_b_def by_owner_and_name_def filter_empty_conv)
  then show ?thesis
    by (simp add: download_never_403) (simp add: download_def download_found_def)
qed

lemma files_bucket1:
  "files_b bucket1 =
     [\<lparr>file_id = 0, filename = ''report.pdf'', contentType = ''application/pdf'', chunkSize = 5,
       length_f = 41,
       metadata = \<lparr>id_m = ''alice'', md5_m = ''m3'',
         info_m = \<lparr>fileName = ''report.pdf'', createDate = ''Tue Nov 03 2026'',
           lastModified = ''Tue Nov 03 2026'', fileSize = ''0.000'',
           type_i = ''application/pdf''\<rparr>\<rparr>\<rparr>]"
  by (simp add: bucket1_def uploadFiles_def alice_upload_def blank_def report_pdf_def
      openUploadStream_pipe_def Let_def empty_bucket_def sample_host_def encryptStream_def
      sample_aead_def)

text \<open>The bucket holds Alice's \<^verbatim>\<open>report.pdf\<close> only, and Bob asks for \<^verbatim>\<open>report.pdf\<close>.\<close>

theorem download_foreign_object_witness:
  "length (files_b bucket1) = 1
   \<and> filename (hd (files_b bucket1)) = params_name bob_request
   \<and> id_m (metadata (hd (files_b bucket1))) = ''alice''
   \<and> jwt_id bob_request = ''bob''
   \<and> download sample_aead bucket1 bob_request = [Next (Some (AppError ''Not found!'' (Some 404)))]
   \<and> sent (download sample_aead bucket1 bob_request) = []"
  using download_foreign_object_not_found [of bucket1 bob_request sample_aead]
  by (simp add: files_bucket1 bob_request_def)

text \<open>
  The claim as stated asks for a 403 there.  The stored object has the requested
  filename and another owner, and the answer is 404, not 403.
\<close>

theorem download_foreign_object_counterexample:
  "length (files_b bucket1) = 1
   \<and> filename (hd (files_b bucket1)) = params_name bob_request
   \<and> id_m (metadata (hd (files_b bucket1))) \<noteq> jwt_id bob_request
   \<and> download sample_aead bucket1 bob_request
       \<noteq> [Next (Some (AppError ''Permission denied!'' (Some 403)))]
   \<and> Next (Some (AppError ''Permission denied!'' (Some 403)))
       \<notin> set (download sample_aead bucket1 bob_request)
   \<and> hd (download sample_aead bucket1 bob_request)
       = Next (Some (AppError ''Not found!'' (Some 404)))"
  by (simp add: files_bucket1 bob_request_def download_def download_found_def find_b_def
      by_owner_and_name_def)

subsection \<open>Uploads under a name that exists\<close>

lemma distinct_pipe:
  "bucket_ok b \<Longrightarrow> distinct (map file_id (files_b b)) \<Longrightarrow>
   distinct (map file_id (files_b (openUploadStream_pipe b fname cs ctype meta storageData)))"
  by (auto simp: bucket_ok_def openUploadStream_pipe_def Let_def)

lemma loop_distinct:
  "bucket_ok b \<Longrightarrow> distinct (map file_id (files_b b)) \<Longrightarrow>
   distinct (map file_id (files_b (fst (uploadFiles_loop prim h ident passphrase i b fl))))"
  by (induction prim h ident passphrase i b fl rule: uploadFiles_loop.induct)
     (auto simp: bucket_ok_pipe distinct_pipe Let_def split: option.splits)

lemma loop_no_next_error:
  "Next (Some e) \<notin> set (snd (uploadFiles_loop prim h ident passphrase i b fl))"
  by (induction prim h ident passphrase i b fl rule: uploadFiles_loop.induct)
     (auto simp: Let_def split: option.splits)

text \<open>
  Claim C5, as amended.  No upload fails with a conflict: \<^verbatim>\<open>uploadFiles\<close> never calls
  \<^verbatim>\<open>next\<close> with an error, and an upload that targets an owner and filename that
  already exist answers 200 and stores a further object under the same pair: the
  number of stored objects with the caller as owner and a given filename grows by the
  number of files of that name in the request.  The pair of owner and filename
  therefore does not identify one object; the \<^verbatim>\<open>_id\<close>s of the stored objects stay
  pairwise distinct.
\<close>

theorem upload_existing_name_adds_object:
  "(\<forall>e. Next (Some e) \<notin> set (snd (uploadFiles prim h b req)))
   \<and> (files req = Some field \<and> fileList_of field = map Some fs \<and> body_passphrase req = Some K \<longrightarrow>
        snd (uploadFiles prim h b req) = [Status_json 200 (Json_status ''success'')]
        \<and> length (find_b (fst (uploadFiles prim h b req)) (by_owner_and_name (jwt_id req) fname))
            = length (find_b b (by_owner_and_name (jwt_id req) fname))
              + length (filter (\<lambda>f. name f = fname) fs)
        \<and> (bucket_ok b \<and> distinct (map file_id (files_b b)) \<longrightarrow>
             distinct (map file_id (files_b (fst (uploadFiles prim h b req))))))"
  by (auto simp: uploadFiles_def loop_no_next_error loop_success loop_count loop_distinct
           split: option.splits)

lemma find_bucket1:
  "find_b bucket1 (by_owner_and_name ''alice'' ''report.pdf'') = files_b bucket1"
  by (simp add: find_b_def files_bucket1 by_owner_and_name_def)

theorem upload_existing_name_adds_object_witness:
  "files alice_upload = Some (One report_pdf)
   \<and> body_passphrase alice_upload = Some ''correct-horse''
   \<and> length (find_b bucket1 (by_owner_and_name (jwt_id alice_upload) ''report.pdf'')) = 1
   \<and> snd (uploadFiles sample_aead sample_host bucket1 alice_upload)
       = [Status_json 200 (Json_status ''success'')]
   \<and> length (find_b bucket2 (by_owner_and_name (jwt_id alice_upload) ''report.pdf'')) = 2"
  using upload_existing_name_adds_object [of sample_aead sample_host bucket1 alice_upload
      "One report_pdf" "[report_pdf]" "''correct-horse''" "''report.pdf''"]
  by (simp add: bucket2_def alice_upload_def find_bucket1 files_bucket1 report_pdf_def)

text \<open>
  The claim as stated fails when Alice uploads \<^verbatim>\<open>report.pdf\<close> a second time: the upload
  succeeds and two objects have her as owner and that filename.
\<close>

theorem upload_same_name_twice_counterexample:
  "length (find_b bucket1 (by_owner_and_name ''alice'' ''report.pdf'')) = 1
   \<and> snd (uploadFiles sample_aead sample_host bucket1 alice_upload)
       = [Status_json 200 (Json_status ''success'')]
   \<and> \<not> length (find_b bucket2 (by_owner_and_name ''alice'' ''report.pdf'')) \<le> 1"
proof -
  have up: "uploadFiles sample_aead sample_host bucket1 alice_upload
            = uploadFiles_loop sample_aead sample_host ''alice'' (Some ''correct-horse'') 0 bucket1
                (map Some [report_pdf])"
    by (simp add: uploadFiles_def alice_upload_def blank_def)
  have "length (find_b bucket2 (by_owner_and_name ''alice'' ''report.pdf''))
        = length (find_b bucket1 (by_owner_and_name ''alice'' ''report.pdf''))
          + length (filter (\<lambda>f. name f = ''report.pdf'') [report_pdf])"
    unfolding bucket2_def up by (simp only: loop_count) simp
  moreover have "snd (uploadFiles sample_aead sample_host bucket1 alice_upload)
       = [Status_json 200 (Json_status ''success'')]"
    unfolding up by (rule loop_success)
  ultimately show ?thesis
    by (simp add: find_bucket1 files_bucket1 report_pdf_def)
qed

subsection \<open>Download after delete\<close>

lemma find_b_delete:
  "find_b (delete_b b fid) q = filter (\<lambda>f. file_id f \<noteq> fid) (find_b b q)"
  by (auto simp: find_b_def delete_b_def intro: filter_cong)

text \<open>
  Claim C7, as amended.  For every stored object that is the only one with its owner
  and filename, a delete of it succeeds with 200, removes the file document and every
  chunk of the file from the bucket, and a subsequent download for the same owner and
  filename fails with 404 "Not found!".
\<close>

theorem delete_unique_then_download_not_found:
  "find_b b (by_owner_and_name (jwt_id req) (params_name req)) = [f]
   \<and> jwt_id req' = jwt_id req \<and> params_name req' = params_name req \<longrightarrow>
     delete b req = (delete_b b (file_id f), [Status_json 200 (Json_status ''success'')])
     \<and> download prim (fst (delete b req)) req' = [Next (Some (AppError ''Not found!'' (Some 404)))]
     \<and> file_id f \<notin> file_id ` set (files_b (fst (delete b req)))
     \<and> file_id f \<notin> files_id ` set (chunks_b (fst (delete b req)))"
proof (intro impI, elim conjE)
  let ?q = "by_owner_and_name (jwt_id req) (params_name req)"
  assume one: "find_b b ?q = [f]" and same: "jwt_id req' = jwt_id req" "params_name req' = params_name req"
  from one have "f \<in> set (find_b b ?q)" by simp
  then have own: "id_m (metadata f) = jwt_id req"
    by (auto dest: find_b_sat simp: by_owner_and_name_def)
  with one have del: "delete b req = (delete_b b (file_id f), [Status_json 200 (Json_status ''success'')])"
    by (simp add: delete_def delete_found_def)
  have "find_b (delete_b b (file_id f)) ?q = []"
    by (simp add: find_b_delete one)
  with same have "download prim (delete_b b (file_id f)) req' = [Next (Some (AppError ''Not found!'' (Some 404)))]"
    by (simp add: download_def download_found_def)
  moreover have "file_id f \<notin> file_id ` set (files_b (delete_b b (file_id f)))"
    and "file_id f \<notin> files_id ` set (chunks_b (delete_b b (file_id f)))"
    by (auto simp: delete_b_def)
  ultimately show "delete b req = (delete_b b (file_id f), [Status_json 200 (Json_status ''success'')])
     \<and> download prim (fst (delete b req)) req' = [Next (Some (AppError ''Not found!'' (Some 404)))]
     \<and> file_id f \<notin> file_id ` set (files_b (fst (delete b req)))
     \<and> file_id f \<notin> files_id ` set (chunks_b (fst (delete b req)))"
    by (simp add: del)
qed

theorem delete_unique_then_download_not_found_witness:
  "find_b bucket1 (by_owner_and_name (jwt_id alice_request) (params_name alice_request))
     = [hd (files_b bucket1)]
   \<and> snd (delete bucket1 alice_request) = [Status_json 200 (Json_status ''success'')]
   \<and> download sample_aead (fst (delete bucket1 alice_request)) alice_request
       = [Next (Some (AppError ''Not found!'' (Some 404)))]"
proof -
  have one: "find_b bucket1 (by_owner_and_name (jwt_id alice_request) (params_name alice_request))
             = [hd (files_b bucket1)]"
    by (simp add: alice_request_def find_bucket1 files_bucket1)
  note r = delete_unique_then_download_not_found
    [of bucket1 alice_request "hd (files_b bucket1)" alice_request sample_aead]
  from r one have "delete bucket1 alice_request
      = (delete_b bucket1 (file_id (hd (files_b bucket1))), [Status_json 200 (Json_status ''success'')])"
    and "download sample_aead (fst (delete bucket1 alice_request)) alice_request
       = [Next (Some (AppError ''Not found!'' (Some 404)))]"
    by auto
  with one show ?thesis by simp
qed

text \<open>
  The claim as stated fails when two objects share owner and filename: after Alice has
  uploaded \<^verbatim>\<open>report.pdf\<close> twice, a successful delete removes one of them and the
  download that follows still sends the file.
\<close>

theorem delete_then_download_counterexample:
  "length (find_b bucket2 (by_owner_and_name (jwt_id alice_request) (params_name alice_request))) = 2
   \<and> snd (delete bucket2 alice_request) = [Status_json 200 (Json_status ''success'')]
   \<and> download sample_aead (fst (delete bucket2 alice_request)) alice_request
       = [Set_headers [(''Accept-Ranges'', ''bytes''),
             (''Content-Disposition'', ''attachment; filename=report.pdf''),
             (''Content-Type'', ''application/pdf'')],
          Pipe [0x25, 0x50, 0x44, 0x46, 0x2D]]"
  by code_simp

subsection \<open>Listing\<close>

text \<open>
  Claim C9.  For all identities \<open>X\<close> and \<open>Y \<noteq> X\<close>, every file document that
  \<^verbatim>\<open>getAll\<close> returns to \<open>X\<close> has owner \<open>X\<close>, and no object owned by \<open>Y\<close> appears in
  the listing of \<open>X\<close>.
\<close>

theorem getAll_lists_only_own:
  "(\<forall>f \<in> set (listing (getAll b req)). id_m (metadata f) = jwt_id req)
   \<and> (\<forall>f \<in> set (files_b b). id_m (metadata f) \<noteq> jwt_id req \<longrightarrow> f \<notin> set (listing (getAll b req)))"
  by (auto simp: getAll_def getAll_found_def find_b_def by_owner_def)

theorem getAll_lists_only_own_witness:
  "map (\<lambda>f. id_m (metadata f)) (files_b bucket3) = [''alice'', ''bob'']
   \<and> jwt_id alice_request = ''alice''
   \<and> map file_id (listing (getAll bucket3 alice_request)) = [0]
   \<and> id_m (metadata (hd (listing (getAll bucket3 alice_request)))) = ''alice''"
proof -
  have owners: "map (\<lambda>f. id_m (metadata f)) (files_b bucket3) = [''alice'', ''bob'']"
    and caller: "jwt_id alice_request = ''alice''"
    and ids: "map file_id (listing (getAll bucket3 alice_request)) = [0]"
    by code_simp+
  from ids have "listing (getAll bucket3 alice_request) \<noteq> []" by auto
  then have "hd (listing (getAll bucket3 alice_request)) \<in> set (listing (getAll bucket3 alice_request))"
    by (rule hd_in_set)
  with getAll_lists_only_own [of bucket3 alice_request] caller
  have "id_m (metadata (hd (listing (getAll bucket3 alice_request)))) = ''alice''"
    by simp
  with owners caller ids show ?thesis by simp
qed

end
